theory Spec2Isabelle
  imports Complex_Main "HOL-Library.Multiset"
begin

section \<open>JavaScript values used by the billing utilities\<close>

text \<open>
  Numbers that arise in the date code are integers or \<open>NaN\<close>; \<open>None\<close> stands for
  \<open>NaN\<close>. A \<open>Date\<close> object is its time value: milliseconds since the epoch in UTC,
  or \<open>NaN\<close> for an Invalid Date.
\<close>

type_synonym jsnum = "int option"
type_synonym Date = "int option"

definition dg :: "nat \<Rightarrow> char" where
  "dg n = ''0123456789'' ! n"

fun digits_of :: "nat \<Rightarrow> string" where
  "digits_of n = (if n < 10 then [dg n] else digits_of (n div 10) @ [dg (n mod 10)])"

declare digits_of.simps [simp del]

definition String_int :: "int \<Rightarrow> string" where
  "String_int i = (if i < 0 then CHR ''-'' # digits_of (nat (- i)) else digits_of (nat i))"

text \<open>\<open>String(x)\<close> and template interpolation of a number.\<close>

definition String_num :: "jsnum \<Rightarrow> string" where
  "String_num x = (case x of None \<Rightarrow> ''NaN'' | Some i \<Rightarrow> String_int i)"

text \<open>\<open>s.padStart(2, '0')\<close>\<close>

definition padStart2 :: "string \<Rightarrow> string" where
  "padStart2 s = replicate (2 - length s) (CHR ''0'') @ s"

definition num_plus :: "jsnum \<Rightarrow> int \<Rightarrow> jsnum" where
  "num_plus x k = map_option (\<lambda>i. i + k) x"

subsection \<open>Time values and the proleptic Gregorian calendar (ECMAScript, Date objects)\<close>

definition msPerDay :: int where
  "msPerDay = 86400000"

definition Day :: "int \<Rightarrow> int" where
  "Day t = t div msPerDay"

definition DaysInYear :: "int \<Rightarrow> int" where
  "DaysInYear y =
     (if y mod 4 \<noteq> 0 then 365 else if y mod 100 \<noteq> 0 then 366
      else if y mod 400 \<noteq> 0 then 365 else 366)"

definition DayFromYear :: "int \<Rightarrow> int" where
  "DayFromYear y =
     365 * (y - 1970) + (y - 1969) div 4 - (y - 1901) div 100 + (y - 1601) div 400"

text \<open>
  ECMAScript defines the year of a day number as the largest \<open>y\<close> with
  \<open>DayFromYear y \<le> n\<close>. It is computed from an estimate that is off by at most one
  (lemma \<open>YearFromDay_bounds\<close> below shows that the result is that largest year).
\<close>

definition YearFromDay :: "int \<Rightarrow> int" where
  "YearFromDay n =
     (let y = 1970 + (400 * n) div 146097
      in if n < DayFromYear y then y - 1
         else if DayFromYear (y + 1) \<le> n then y + 1 else y)"

definition YearFromTime :: "int \<Rightarrow> int" where
  "YearFromTime t = YearFromDay (Day t)"

definition InLeapYear :: "int \<Rightarrow> int" where
  "InLeapYear t = (if DaysInYear (YearFromTime t) = 366 then 1 else 0)"

definition DayWithinYear :: "int \<Rightarrow> int" where
  "DayWithinYear t = Day t - DayFromYear (YearFromTime t)"

text \<open>The month (0 to 11) and the day of the month of day \<open>d\<close> of a year; \<open>l\<close> is 1 in a leap year.\<close>

definition MonthOfDayInYear :: "int \<Rightarrow> int \<Rightarrow> int" where
  "MonthOfDayInYear l d =
     (if d < 31 then 0 else if d < 59 + l then 1 else if d < 90 + l then 2
      else if d < 120 + l then 3 else if d < 151 + l then 4 else if d < 181 + l then 5
      else if d < 212 + l then 6 else if d < 243 + l then 7 else if d < 273 + l then 8
      else if d < 304 + l then 9 else if d < 334 + l then 10 else 11)"

text \<open>The day of the year on which month \<open>m\<close> (0 to 11) starts.\<close>

definition MonthStart :: "int \<Rightarrow> int \<Rightarrow> int" where
  "MonthStart l m =
     (if m = 0 then 0 else if m = 1 then 31 else if m = 2 then 59 + l
      else if m = 3 then 90 + l else if m = 4 then 120 + l else if m = 5 then 151 + l
      else if m = 6 then 181 + l else if m = 7 then 212 + l else if m = 8 then 243 + l
      else if m = 9 then 273 + l else if m = 10 then 304 + l else 334 + l)"

definition MonthFromTime :: "int \<Rightarrow> int" where
  "MonthFromTime t = MonthOfDayInYear (InLeapYear t) (DayWithinYear t)"

definition DateFromTime :: "int \<Rightarrow> int" where
  "DateFromTime t = DayWithinYear t - MonthStart (InLeapYear t) (MonthFromTime t) + 1"

definition MakeTime :: "int \<Rightarrow> int \<Rightarrow> int \<Rightarrow> int \<Rightarrow> int" where
  "MakeTime h m s ms = h * 3600000 + m * 60000 + s * 1000 + ms"

definition MakeDay :: "int \<Rightarrow> int \<Rightarrow> int \<Rightarrow> int" where
  "MakeDay year month date =
     (let ym = year + month div 12; mn = month mod 12
      in DayFromYear ym + MonthStart (if DaysInYear ym = 366 then 1 else 0) mn + date - 1)"

definition MakeDate :: "int \<Rightarrow> int \<Rightarrow> int" where
  "MakeDate day time = day * msPerDay + time"

definition TimeClip :: "int \<Rightarrow> Date" where
  "TimeClip t = (if \<bar>t\<bar> > 8640000000000000 then None else Some t)"

text \<open>
  Local time. \<open>tza\<close> is the offset of the local time zone from UTC in milliseconds
  (19800000 for India, 0 for UTC); a zone with a fixed offset is modelled, daylight
  saving transitions are not.
\<close>

definition LocalTime :: "int \<Rightarrow> int \<Rightarrow> int" where
  "LocalTime tza t = t + tza"

definition UTC :: "int \<Rightarrow> int \<Rightarrow> int" where
  "UTC tza t = t - tza"

text \<open>\<open>new Date(year, monthIndex, day)\<close>: years 0 to 99 mean 1900 to 1999.\<close>

definition Date_ymd :: "int \<Rightarrow> jsnum \<Rightarrow> jsnum \<Rightarrow> jsnum \<Rightarrow> Date" where
  "Date_ymd tza year month day =
     (case (year, month, day) of
        (Some y, Some m, Some dt) \<Rightarrow>
          (let yr = (if 0 \<le> y \<and> y \<le> 99 then 1900 + y else y)
           in TimeClip (UTC tza (MakeDate (MakeDay yr m dt) (MakeTime 0 0 0 0))))
      | _ \<Rightarrow> None)"

definition getFullYear :: "int \<Rightarrow> Date \<Rightarrow> jsnum" where
  "getFullYear tza d = map_option (\<lambda>t. YearFromTime (LocalTime tza t)) d"

definition getMonth :: "int \<Rightarrow> Date \<Rightarrow> jsnum" where
  "getMonth tza d = map_option (\<lambda>t. MonthFromTime (LocalTime tza t)) d"

definition getDate :: "int \<Rightarrow> Date \<Rightarrow> jsnum" where
  "getDate tza d = map_option (\<lambda>t. DateFromTime (LocalTime tza t)) d"

text \<open>\<open>d.setHours(h, m, s, ms)\<close>: the local day is kept, the time within it replaced.\<close>

definition setHours :: "int \<Rightarrow> Date \<Rightarrow> int \<Rightarrow> int \<Rightarrow> int \<Rightarrow> int \<Rightarrow> Date" where
  "setHours tza d h m s ms =
     (case d of None \<Rightarrow> None
      | Some t \<Rightarrow> TimeClip (UTC tza (MakeDate (Day (LocalTime tza t)) (MakeTime h m s ms))))"

text \<open>The leap-year indicator of a year, and the number of days of its month \<open>m\<close> (0 to 11).\<close>

definition LeapOf :: "int \<Rightarrow> int" where
  "LeapOf y = (if DaysInYear y = 366 then 1 else 0)"

definition DaysInMonth :: "int \<Rightarrow> int \<Rightarrow> int" where
  "DaysInMonth y m =
     (if m = 1 then (if DaysInYear y = 366 then 29 else 28)
      else if m = 3 \<or> m = 5 \<or> m = 8 \<or> m = 10 then 30 else 31)"

text \<open>
  \<open>new Date(s)\<close> for a date-only ISO string \<open>YYYY-MM-DD\<close>, which ECMAScript reads
  as midnight UTC of that day. Other strings (date-time forms, engine-specific formats)
  are not modelled and yield an Invalid Date here.
\<close>

definition digit_val :: "char \<Rightarrow> int option" where
  "digit_val c = (if c \<in> set ''0123456789'' then Some (int (of_char c) - 48) else None)"

definition Date_parse :: "string \<Rightarrow> Date" where
  "Date_parse s =
     (case s of
        [y1, y2, y3, y4, s1, m1, m2, s2, d1, d2] \<Rightarrow>
          (case (digit_val y1, digit_val y2, digit_val y3, digit_val y4,
                 digit_val m1, digit_val m2, digit_val d1, digit_val d2) of
             (Some a, Some b, Some c, Some d, Some e, Some f, Some g, Some h) \<Rightarrow>
               (let y = 1000 * a + 100 * b + 10 * c + d; m = 10 * e + f; dt = 10 * g + h
                in if s1 = CHR ''-'' \<and> s2 = CHR ''-'' \<and> 1 \<le> m \<and> m \<le> 12
                      \<and> 1 \<le> dt \<and> dt \<le> DaysInMonth y (m - 1)
                   then TimeClip (MakeDate (MakeDay y (m - 1) dt) (MakeTime 0 0 0 0))
                   else None)
           | _ \<Rightarrow> None)
      | _ \<Rightarrow> None)"

text \<open>Relational comparison of two numbers: false as soon as one of them is \<open>NaN\<close>.\<close>

definition num_le :: "jsnum \<Rightarrow> jsnum \<Rightarrow> bool" where
  "num_le a b = (case (a, b) of (Some x, Some y) \<Rightarrow> x \<le> y | _ \<Rightarrow> False)"

section \<open>Billing cycles\<close>

text \<open>The value returned by the cycle functions: \<open>{ month, year, startDate, endDate }\<close>.\<close>

record cycle =
  month :: jsnum
  year :: jsnum
  startDate :: string
  endDate :: string

text \<open>A parameter of type \<open>Date | string\<close>.\<close>

datatype DateArg = DateObj Date | DateStr string

definition toDate :: "DateArg \<Rightarrow> Date" where
  "toDate a = (case a of DateStr s \<Rightarrow> Date_parse s | DateObj d \<Rightarrow> d)"

definition formatDate :: "int \<Rightarrow> Date \<Rightarrow> string" where
  "formatDate tza d =
     (let yr = getFullYear tza d;
          mo = padStart2 (String_num (num_plus (getMonth tza d) 1));
          dy = padStart2 (String_num (getDate tza d))
      in String_num yr @ ''-'' @ mo @ ''-'' @ dy)"

text \<open>\<open>now\<close> is the time value that \<open>new Date()\<close> reads from the clock.\<close>

definition getCurrentBillingCycle :: "int \<Rightarrow> int \<Rightarrow> cycle" where
  "getCurrentBillingCycle tza now =
     (let yr = getFullYear tza (Some now);
          mo = num_plus (getMonth tza (Some now)) 1;
          start = Date_ymd tza yr (num_plus mo (- 1)) (Some 1);
          end = Date_ymd tza yr mo (Some 0)
      in \<lparr>month = mo, year = yr,
          startDate = formatDate tza start, endDate = formatDate tza end\<rparr>)"

definition getBillingCycleForDate :: "int \<Rightarrow> DateArg \<Rightarrow> cycle" where
  "getBillingCycleForDate tza date =
     (let d = toDate date;
          yr = getFullYear tza d;
          mo = num_plus (getMonth tza d) 1;
          start = Date_ymd tza yr (num_plus mo (- 1)) (Some 1);
          end = Date_ymd tza yr mo (Some 0)
      in \<lparr>month = mo, year = yr,
          startDate = formatDate tza start, endDate = formatDate tza end\<rparr>)"

text \<open>An omitted (\<open>undefined\<close>) optional argument is \<open>None\<close>.\<close>

definition getBillingCycleId :: "int \<Rightarrow> int \<Rightarrow> jsnum option \<Rightarrow> jsnum option \<Rightarrow> string" where
  "getBillingCycleId tza now mo yr =
     (let m = (case mo of None \<Rightarrow> num_plus (getMonth tza (Some now)) 1 | Some v \<Rightarrow> v);
          y = (case yr of None \<Rightarrow> getFullYear tza (Some now) | Some v \<Rightarrow> v)
      in String_num y @ ''-'' @ padStart2 (String_num m))"

definition isDateInBillingCycle :: "int \<Rightarrow> DateArg \<Rightarrow> string \<Rightarrow> string \<Rightarrow> bool" where
  "isDateInBillingCycle tza date cycleStart cycleEnd =
     (let d = toDate date;
          start = Date_parse cycleStart;
          end = setHours tza (Date_parse cycleEnd) 23 59 59 999
      in num_le start d \<and> num_le d end)"

definition getPreviousBillingCycle :: "int \<Rightarrow> int \<Rightarrow> cycle" where
  "getPreviousBillingCycle tza now =
     (let yr = (if getMonth tza (Some now) = Some 0 then num_plus (getFullYear tza (Some now)) (- 1)
                else getFullYear tza (Some now));
          mo = (if getMonth tza (Some now) = Some 0 then Some 12 else getMonth tza (Some now));
          start = Date_ymd tza yr (num_plus mo (- 1)) (Some 1);
          end = Date_ymd tza yr mo (Some 0)
      in \<lparr>month = mo, year = yr,
          startDate = formatDate tza start, endDate = formatDate tza end\<rparr>)"

definition getNextBillingCycle :: "int \<Rightarrow> int \<Rightarrow> cycle" where
  "getNextBillingCycle tza now =
     (let yr = (if getMonth tza (Some now) = Some 11 then num_plus (getFullYear tza (Some now)) 1
                else getFullYear tza (Some now));
          mo = (if getMonth tza (Some now) = Some 11 then Some 1
                else num_plus (getMonth tza (Some now)) 2);
          start = Date_ymd tza yr (num_plus mo (- 1)) (Some 1);
          end = Date_ymd tza yr mo (Some 0)
      in \<lparr>month = mo, year = yr,
          startDate = formatDate tza start, endDate = formatDate tza end\<rparr>)"

text \<open>The format the interface documents for cycle dates and identifiers.\<close>

definition fmt2 :: "int \<Rightarrow> string" where
  "fmt2 k = [dg (nat (k div 10)), dg (nat (k mod 10))]"

definition fmt4 :: "int \<Rightarrow> string" where
  "fmt4 k = [dg (nat (k div 1000)), dg (nat (k div 100 mod 10)),
             dg (nat (k div 10 mod 10)), dg (nat (k mod 10))]"

definition iso_date :: "int \<Rightarrow> int \<Rightarrow> int \<Rightarrow> string" where
  "iso_date y m d = fmt4 y @ ''-'' @ fmt2 m @ ''-'' @ fmt2 d"

definition iso_month :: "int \<Rightarrow> int \<Rightarrow> string" where
  "iso_month y m = fmt4 y @ ''-'' @ fmt2 m"

text \<open>
  The date object for local midnight of day \<open>d\<close> of month \<open>m\<close> (0 to 11) of year \<open>y\<close>,
  and the cycle of month \<open>mo\<close> (1 to 12) of year \<open>y\<close> as the interface describes it:
  the month's first and last day in the format \<open>YYYY-MM-DD\<close>.
\<close>

definition civilDate :: "int \<Rightarrow> int \<Rightarrow> int \<Rightarrow> int \<Rightarrow> Date" where
  "civilDate tza y m d = Some (UTC tza (MakeDate (MakeDay y m d) (MakeTime 0 0 0 0)))"

definition monthCycle :: "int \<Rightarrow> int \<Rightarrow> cycle" where
  "monthCycle y mo =
     \<lparr>month = Some mo, year = Some y,
      startDate = iso_date y mo 1, endDate = iso_date y mo (DaysInMonth y (mo - 1))\<rparr>"

section \<open>Report versions: the analytics service and the progress component\<close>

text \<open>
  What both modules read of a report version: \<open>version\<close> is \<open>data.version || 0\<close> and
  \<open>createdAt\<close> is the time value \<open>new Date(createdAt).getTime()\<close> of the creation
  timestamp, which is taken to be a valid date. The other fields extend this record.
\<close>

record versionStamp =
  version :: int
  createdAt :: int

text \<open>The object that \<open>fetchPatientAnalytics\<close> builds from each document.\<close>

record reportEntry = versionStamp +
  painRating :: "string option"
  rom :: "string option"
  diagnosis :: "string option"
  treatmentDone :: "string option"

text \<open>
  The \<open>ReportVersion\<close> of the progress component; of its \<open>data\<close> the pain status is
  modelled.
\<close>

record ReportVersion = versionStamp +
  id_doc :: string
  createdBy :: string
  currentPainStatus :: "string option"

text \<open>
  \<open>array.sort(compare)\<close>. ECMAScript requires a stable sort; for a comparator that is a
  consistent ordering every stable sort returns the same array, computed here by insertion
  from the right.
\<close>

fun insert_by :: "('a \<Rightarrow> 'a \<Rightarrow> int) \<Rightarrow> 'a \<Rightarrow> 'a list \<Rightarrow> 'a list" where
  "insert_by cmp x [] = [x]"
| "insert_by cmp x (y # ys) = (if cmp x y \<le> 0 then x # y # ys else y # insert_by cmp x ys)"

definition Array_sort :: "('a \<Rightarrow> 'a \<Rightarrow> int) \<Rightarrow> 'a list \<Rightarrow> 'a list" where
  "Array_sort cmp xs = foldr (insert_by cmp) xs []"

subsection \<open>\<open>fetchPatientAnalytics\<close>\<close>

text \<open>
  The outcome of a Firestore query: the documents, already mapped to entries, or an error
  with its \<open>code\<close>.
\<close>

datatype 'a queryResult = Docs "'a list" | QueryError string

datatype fetchError = PatientIdRequired | QueryFailed string | NoReportVersions

text \<open>
  The three queries are tried in turn: ordered by \<open>createdAt\<close>, ordered by \<open>version\<close>,
  unordered; the next one runs only after the error \<open>failed-precondition\<close>.
\<close>

definition getVersions ::
  "'a queryResult \<Rightarrow> 'a queryResult \<Rightarrow> 'a queryResult \<Rightarrow> fetchError + 'a list" where
  "getVersions byCreatedAt byVersion unordered =
     (case byCreatedAt of
        Docs ds \<Rightarrow> Inr ds
      | QueryError code \<Rightarrow>
          if code = ''failed-precondition'' then
            (case byVersion of
               Docs ds \<Rightarrow> Inr ds
             | QueryError code2 \<Rightarrow>
                 if code2 = ''failed-precondition'' then
                   (case unordered of
                      Docs ds \<Rightarrow> Inr ds
                    | QueryError code3 \<Rightarrow> Inl (QueryFailed code3))
                 else Inl (QueryFailed code2))
          else Inl (QueryFailed code))"

text \<open>The check \<open>reportHistory.every(...)\<close> that each entry is not older than the one before.\<close>

fun isSorted :: "('a versionStamp_scheme) list \<Rightarrow> bool" where
  "isSorted (prev # item # rest) = (createdAt prev \<le> createdAt item \<and> isSorted (item # rest))"
| "isSorted _ = True"

definition compareHistory :: "'a versionStamp_scheme \<Rightarrow> 'a versionStamp_scheme \<Rightarrow> int" where
  "compareHistory a b =
     (if createdAt a \<noteq> createdAt b then createdAt a - createdAt b else version a - version b)"

definition sortHistory :: "('a versionStamp_scheme) list \<Rightarrow> ('a versionStamp_scheme) list" where
  "sortHistory reportHistory =
     (if length reportHistory > 0 then
        (if \<not> isSorted reportHistory then Array_sort compareHistory reportHistory
         else reportHistory)
      else reportHistory)"

text \<open>\<open>reportHistory.slice(-5)\<close>\<close>

definition slice_last5 :: "'a list \<Rightarrow> 'a list" where
  "slice_last5 xs = drop (length xs - 5) xs"

text \<open>
  The function up to the request it issues: \<open>Inl\<close> is the error thrown before any request,
  \<open>Inr\<close> the \<open>reportHistory\<close> of the body posted to \<open>/api/analyze-patient\<close>.
\<close>

definition fetchPatientAnalytics_request ::
  "string \<Rightarrow> ('a versionStamp_scheme) queryResult \<Rightarrow> ('a versionStamp_scheme) queryResult
     \<Rightarrow> ('a versionStamp_scheme) queryResult \<Rightarrow> fetchError + ('a versionStamp_scheme) list" where
  "fetchPatientAnalytics_request patientId byCreatedAt byVersion unordered =
     (if patientId = [] then Inl PatientIdRequired
      else case getVersions byCreatedAt byVersion unordered of
             Inl e \<Rightarrow> Inl e
           | Inr docs \<Rightarrow>
               (let reportHistory = sortHistory docs
                in if length reportHistory = 0 then Inl NoReportVersions
                   else Inr (slice_last5 reportHistory)))"

subsection \<open>\<open>PatientProgressAnalytics\<close>\<close>

definition compareVersions :: "'a versionStamp_scheme \<Rightarrow> 'a versionStamp_scheme \<Rightarrow> int" where
  "compareVersions a b =
     (if version a \<noteq> version b then version a - version b else createdAt a - createdAt b)"

text \<open>The \<open>versions.sort(...)\<close> of \<open>loadData\<close>.\<close>

definition sortVersions :: "('a versionStamp_scheme) list \<Rightarrow> ('a versionStamp_scheme) list" where
  "sortVersions versions = Array_sort compareVersions versions"

text \<open>
  Number arithmetic is IEEE double arithmetic: the exact result, rounded to a double by
  \<open>rnd\<close>. Rounding is monotone and leaves the integers that occur here unchanged; the
  model takes \<open>rnd\<close> as a parameter and the theorems assume no more than that of it.
  \<open>Math.round\<close> rounds to the nearest integer, a half upwards.
\<close>

definition Math_round :: "rat \<Rightarrow> int" where
  "Math_round x = \<lfloor>x + 1 / 2\<rfloor>"

record SessionMetrics =
  sessionNumber :: int
  painStatus :: "string option"
  cumulativeImprovementRate :: int

text \<open>
  \<open>sessionMetrics\<close>, with the fields that depend on the version number, the pain status and
  the improvement count.
\<close>

definition sessionMetric :: "(rat \<Rightarrow> rat) \<Rightarrow> ReportVersion list \<Rightarrow> ReportVersion \<Rightarrow> nat \<Rightarrow> SessionMetrics" where
  "sessionMetric rnd reportVersions v index =
     (let sessionsWithImprovement =
            length (filter (\<lambda>v. currentPainStatus v = Some ''Improved'')
                      (take (index + 1) reportVersions));
          rate = rnd (rnd (of_nat sessionsWithImprovement / of_nat (index + 1)) * 100)
      in \<lparr>sessionNumber = (if version v \<noteq> 0 then version v else int index + 1),
          painStatus = (if currentPainStatus v = Some [] then None else currentPainStatus v),
          cumulativeImprovementRate = Math_round rate\<rparr>)"

definition sessionMetrics :: "(rat \<Rightarrow> rat) \<Rightarrow> ReportVersion list \<Rightarrow> SessionMetrics list" where
  "sessionMetrics rnd reportVersions =
     (if length reportVersions = 0 then []
      else map (\<lambda>(v, index). sessionMetric rnd reportVersions v index)
             (zip reportVersions [0..<length reportVersions]))"

section \<open>The API route handlers\<close>

text \<open>
  JSON values as \<open>JSON.parse\<close> and \<open>req.json()\<close> deliver them. Numbers are modelled by
  integers. A property that is absent reads as \<open>undefined\<close>, which is \<open>None\<close>.
\<close>

datatype json =
  JNull | JBool bool | JNum int | JStr string | JArr "json list" | JObj "(string \<times> json) list"

fun truthy :: "json \<Rightarrow> bool" where
  "truthy JNull = False"
| "truthy (JBool b) = b"
| "truthy (JNum n) = (n \<noteq> 0)"
| "truthy (JStr s) = (s \<noteq> [])"
| "truthy (JArr xs) = True"
| "truthy (JObj kvs) = True"

text \<open>\<open>!v\<close> for a value that may be \<open>undefined\<close>.\<close>

definition falsy :: "json option \<Rightarrow> bool" where
  "falsy v = (case v of None \<Rightarrow> True | Some x \<Rightarrow> \<not> truthy x)"

fun isArray :: "json option \<Rightarrow> bool" where
  "isArray (Some (JArr xs)) = True"
| "isArray _ = False"

text \<open>A parsed object keeps the last of several members with the same key.\<close>

definition member :: "(string \<times> json) list \<Rightarrow> string \<Rightarrow> json option" where
  "member kvs k = map_of (rev kvs) k"

text \<open>
  A thrown error, read through \<open>error?.status\<close>, \<open>error?.code\<close> and \<open>error?.message\<close>.
\<close>

record jsError =
  err_status :: "int option"
  err_code :: "string option"
  err_message :: "string option"

definition TypeError :: "string \<Rightarrow> jsError" where
  "TypeError msg = \<lparr>err_status = None, err_code = None, err_message = Some msg\<rparr>"

text \<open>
  \<open>const { k } = v\<close> and \<open>v.k\<close>: reading a property of \<open>null\<close> throws, a value that is not
  an object has no such property.
\<close>

definition getProp :: "json \<Rightarrow> string \<Rightarrow> jsError + json option" where
  "getProp v k =
     (case v of
        JNull \<Rightarrow> Inl (TypeError ''Cannot read properties of null'')
      | JObj kvs \<Rightarrow> Inr (member kvs k)
      | _ \<Rightarrow> Inr None)"

text \<open>\<open>v?.k\<close>\<close>

definition optChain :: "json \<Rightarrow> string \<Rightarrow> json option" where
  "optChain v k = (case v of JObj kvs \<Rightarrow> member kvs k | _ \<Rightarrow> None)"

text \<open>\<open>String(v)\<close>: an array joins the strings of its elements, an empty one for \<open>null\<close>.\<close>

fun String_json :: "json \<Rightarrow> string" and String_elems :: "json list \<Rightarrow> string" where
  "String_json JNull = ''null''"
| "String_json (JBool b) = (if b then ''true'' else ''false'')"
| "String_json (JNum n) = String_int n"
| "String_json (JStr s) = s"
| "String_json (JArr xs) = String_elems xs"
| "String_json (JObj kvs) = ''[object Object]''"
| "String_elems [] = []"
| "String_elems [x] = (if x = JNull then [] else String_json x)"
| "String_elems (x # y # ys) =
     (if x = JNull then [] else String_json x) @ '','' @ String_elems (y # ys)"



text \<open>The response of \<open>NextResponse.json(payload, { status })\<close>; the status defaults to 200.\<close>

record response =
  status :: nat
  payload :: json

text \<open>What a handler does besides answering, in the order in which it happens.\<close>

datatype effect =
  OpenAI_create | Console_error | Console_warn
  | VerifyIdToken string | UpdateUser string string

subsection \<open>\<open>POST /api/analyze-patient\<close>\<close>

text \<open>
  \<open>completion.choices[0]?.message?.content\<close>: absent or empty, a string that
  \<open>JSON.parse\<close> rejects, or a string that it parses.
\<close>

datatype responseContent = NoContent | Unparsable | Parsed json

datatype completionOutcome = Threw jsError | Completed responseContent

text \<open>
  A request as the handler sees it: the outcome of \<open>req.json()\<close>, whether
  \<open>OPENAI_API_KEY\<close> is set, and what the chat-completion call does if it is made.
\<close>

record analyzeRequest =
  reqBody :: "jsError + json"
  apiKey :: bool
  completion :: completionOutcome

definition failure :: "nat \<Rightarrow> string \<Rightarrow> response" where
  "failure st msg = \<lparr>status = st, payload = JObj [(''success'', JBool False), (''message'', JStr msg)]\<rparr>"

definition success :: "json \<Rightarrow> response" where
  "success d = \<lparr>status = 200, payload = JObj [(''success'', JBool True), (''data'', d)]\<rparr>"

definition fallbackAnalysis :: json where
  "fallbackAnalysis =
     JObj [(''summary'', JStr ''AI services are currently busy. Please try again in a moment.''),
           (''trend_analysis'', JStr ''Unable to analyze trends at this time due to high service demand. Please retry shortly.''),
           (''key_achievements'', JArr [JStr ''Analysis temporarily unavailable'']),
           (''recommendation'', JStr ''Please wait a moment and try again to get the latest analytics.'')]"

definition rateLimited :: "jsError \<Rightarrow> bool" where
  "rateLimited e = (err_status e = Some 429 \<or> err_code e = Some ''rate_limit_exceeded'')"

text \<open>The outer \<open>catch\<close>; \<open>trace\<close> is what happened before the error was thrown.\<close>

definition analyze_catch :: "jsError \<Rightarrow> effect list \<Rightarrow> response \<times> effect list" where
  "analyze_catch error trace =
     (if err_status error = Some 401
      then (failure 401 ''Invalid OpenAI API key'', trace @ [Console_error])
      else if rateLimited error
      then (success fallbackAnalysis, trace @ [Console_error])
      else (failure 500
              (case err_message error of
                 None \<Rightarrow> ''Failed to analyze patient data''
               | Some m \<Rightarrow> if m = [] then ''Failed to analyze patient data'' else m),
            trace @ [Console_error]))"

text \<open>The validation of the parsed analysis and the final answer.\<close>

definition analyze_result :: "json \<Rightarrow> effect list \<Rightarrow> response \<times> effect list" where
  "analyze_result analysisResult trace =
     (case getProp analysisResult ''summary'' of
        Inl e \<Rightarrow> analyze_catch e trace
      | Inr summary \<Rightarrow>
          if falsy summary \<or> falsy (optChain analysisResult ''trend_analysis'')
             \<or> \<not> isArray (optChain analysisResult ''key_achievements'')
             \<or> falsy (optChain analysisResult ''recommendation'')
          then (failure 500 ''Invalid analysis structure from AI. Missing required fields.'', trace)
          else (success analysisResult, trace))"

definition POST_analyze_patient :: "analyzeRequest \<Rightarrow> response \<times> effect list" where
  "POST_analyze_patient rq =
     (case reqBody rq of
        Inl e \<Rightarrow> analyze_catch e []
      | Inr b \<Rightarrow>
          (case getProp b ''reportHistory'' of
             Inl e \<Rightarrow> analyze_catch e []
           | Inr reportHistory \<Rightarrow>
               if falsy reportHistory \<or> \<not> isArray reportHistory
               then (failure 400 ''Missing or invalid field: reportHistory (must be an array)'', [])
               else if reportHistory = Some (JArr [])
               then (failure 400
                       ''Report history is empty. At least one report is required for analysis.'', [])
               else if \<not> apiKey rq
               then (failure 500 ''OpenAI API key is not configured'', [Console_error])
               else
                 (case completion rq of
                    Threw rateLimitError \<Rightarrow>
                      if rateLimited rateLimitError
                      then (success fallbackAnalysis, [OpenAI_create, Console_warn])
                      else analyze_catch rateLimitError [OpenAI_create]
                  | Completed NoContent \<Rightarrow> (failure 500 ''No response from OpenAI'', [OpenAI_create])
                  | Completed Unparsable \<Rightarrow>
                      (failure 500 ''Invalid JSON response from AI'', [OpenAI_create, Console_error])
                  | Completed (Parsed analysisResult) \<Rightarrow>
                      analyze_result analysisResult [OpenAI_create])))"

subsection \<open>The password-change route\<close>






section \<open>The employee CSV exports\<close>

datatype EmployeeRole = FrontDesk | ClinicalTeam | Physiotherapist | StrengthAndConditioning | Admin

datatype EmployeeStatus = Active | Inactive

record Employee =
  id_emp :: string
  userName :: string
  userEmail :: string
  role :: EmployeeRole
  status_emp :: EmployeeStatus
  createdAt_emp :: "string option"
  deleted :: "bool option"
  deletedAt :: "string option"
  phone :: "string option"
  address :: "string option"
  dateOfBirth :: "string option"
  dateOfJoining :: "string option"
  gender :: "string option"
  bloodGroup :: "string option"
  emergencyContact :: "string option"
  emergencyPhone :: "string option"
  qualifications :: "string option"
  specialization :: "string option"
  experience :: "string option"
  professionalAim :: "string option"
  profileImage :: "string option"

fun ROLE_LABELS :: "EmployeeRole \<Rightarrow> string" where
  "ROLE_LABELS Admin = ''Admin''"
| "ROLE_LABELS FrontDesk = ''Front Desk''"
| "ROLE_LABELS ClinicalTeam = ''Clinical Team''"
| "ROLE_LABELS Physiotherapist = ''Physiotherapist''"
| "ROLE_LABELS StrengthAndConditioning = ''Strength & Conditioning''"

text \<open>The string that the type \<open>EmployeeStatus\<close> stands for.\<close>

fun statusText :: "EmployeeStatus \<Rightarrow> string" where
  "statusText Active = ''Active''"
| "statusText Inactive = ''Inactive''"

definition dquote :: char where
  "dquote = CHR 0x22"

definition newline :: char where
  "newline = CHR 0x0A"

text \<open>The characters that make the export quote a cell.\<close>

definition special :: "char \<Rightarrow> bool" where
  "special c \<longleftrightarrow> c = CHR '','' \<or> c = dquote \<or> c = newline"

text \<open>\<open>value || ''\<close> for an optional string.\<close>

definition orEmpty :: "string option \<Rightarrow> string" where
  "orEmpty v = (case v of None \<Rightarrow> [] | Some s \<Rightarrow> s)"

text \<open>\<open>cellValue.replace(/"/g, '""')\<close>\<close>

definition replaceQuotes :: "string \<Rightarrow> string" where
  "replaceQuotes s = concat (map (\<lambda>c. if c = dquote then [dquote, dquote] else [c]) s)"

text \<open>The cell function of both exports; \<open>String(cell || '')\<close> is \<open>orEmpty cell\<close>.\<close>

definition escapeCell :: "string option \<Rightarrow> string" where
  "escapeCell cell =
     (let cellValue = orEmpty cell
      in if CHR '','' \<in> set cellValue \<or> dquote \<in> set cellValue \<or> newline \<in> set cellValue
         then [dquote] @ replaceQuotes cellValue @ [dquote]
         else cellValue)"

text \<open>\<open>array.join(sep)\<close>\<close>

fun join :: "string \<Rightarrow> string list \<Rightarrow> string" where
  "join sep [] = []"
| "join sep [x] = x"
| "join sep (x # y # ys) = x @ sep @ join sep (y # ys)"

definition csvContent :: "string list \<Rightarrow> string option list list \<Rightarrow> string" where
  "csvContent headers rows =
     join [newline] (join '','' headers # map (\<lambda>row. join '','' (map escapeCell row)) rows)"

text \<open>
  The two exports, up to the text they hand to the download. \<open>formatDateUI\<close> is the
  \<open>formatDate\<close> of the users page, which rests on \<open>Intl.DateTimeFormat\<close> and is a
  parameter here.
\<close>

definition exportHeaders :: "string list" where
  "exportHeaders = [''Name'', ''Email'', ''Role'', ''Status'', ''Created Date'']"

definition exportRow :: "(string option \<Rightarrow> string) \<Rightarrow> Employee \<Rightarrow> string option list" where
  "exportRow formatDateUI employee =
     [Some (userName employee), Some (userEmail employee), Some (ROLE_LABELS (role employee)),
      Some (statusText (status_emp employee)), Some (formatDateUI (createdAt_emp employee))]"

definition handleExportCSV :: "(string option \<Rightarrow> string) \<Rightarrow> Employee list \<Rightarrow> string" where
  "handleExportCSV formatDateUI filteredEmployees =
     csvContent exportHeaders (map (exportRow formatDateUI) filteredEmployees)"

definition detailsHeaders :: "string list" where
  "detailsHeaders =
     [''Name'', ''Email'', ''Role'', ''Status'', ''Phone'', ''Address'', ''Date of Birth'',
      ''Date of Joining'', ''Gender'', ''Blood Group'', ''Emergency Contact'',
      ''Emergency Phone'', ''Qualifications'', ''Specialization'', ''Experience'',
      ''Professional Aim'', ''Created Date'', ''Deleted'', ''Deleted Date'']"

definition detailsRow :: "(string option \<Rightarrow> string) \<Rightarrow> Employee \<Rightarrow> string option list" where
  "detailsRow formatDateUI employee =
     [Some (userName employee), Some (userEmail employee), Some (ROLE_LABELS (role employee)),
      Some (statusText (status_emp employee)),
      Some (orEmpty (phone employee)), Some (orEmpty (address employee)),
      Some (orEmpty (dateOfBirth employee)), Some (orEmpty (dateOfJoining employee)),
      Some (orEmpty (gender employee)), Some (orEmpty (bloodGroup employee)),
      Some (orEmpty (emergencyContact employee)), Some (orEmpty (emergencyPhone employee)),
      Some (orEmpty (qualifications employee)), Some (orEmpty (specialization employee)),
      Some (orEmpty (experience employee)), Some (orEmpty (professionalAim employee)),
      Some (formatDateUI (createdAt_emp employee)),
      Some (if deleted employee = Some True then ''Yes'' else ''No''),
      Some (if orEmpty (deletedAt employee) \<noteq> [] then formatDateUI (deletedAt employee) else [])]"

definition handleExportEmployeeDetailsCSV ::
  "(string option \<Rightarrow> string) \<Rightarrow> Employee list \<Rightarrow> string" where
  "handleExportEmployeeDetailsCSV formatDateUI employees =
     csvContent detailsHeaders (map (detailsRow formatDateUI) employees)"

text \<open>
  Reading a CSV text by the standard rules (RFC 4180 and the common readers): a comma ends
  a cell; a line feed, a carriage return, or a carriage return followed by a line feed ends
  a row; except between the quotes of a cell that starts with a quote, where two quotes
  stand for one. The reader keeps the rows read, the cells of the current row, the text of
  the current cell and where it is.
\<close>

definition creturn :: char where
  "creturn = CHR 0x0D"

datatype place = FieldStart | Unquoted | Quoted | QuoteInQuoted | AfterReturn

type_synonym reader = "string list list \<times> string list \<times> string \<times> place"

definition csv_step :: "reader \<Rightarrow> char \<Rightarrow> reader" where
  "csv_step rd c =
     (case rd of (rows, cells, cell, pl) \<Rightarrow>
        if pl = Quoted then
          (if c = dquote then (rows, cells, cell, QuoteInQuoted)
           else (rows, cells, cell @ [c], Quoted))
        else if pl = AfterReturn \<and> c = newline then (rows, cells, cell, FieldStart)
        else if c = CHR '','' then (rows, cells @ [cell], [], FieldStart)
        else if c = newline then (rows @ [cells @ [cell]], [], [], FieldStart)
        else if c = creturn then (rows @ [cells @ [cell]], [], [], AfterReturn)
        else if c = dquote \<and> (pl = FieldStart \<or> pl = AfterReturn) then (rows, cells, cell, Quoted)
        else if c = dquote \<and> pl = QuoteInQuoted then (rows, cells, cell @ [c], Quoted)
        else (rows, cells, cell @ [c], Unquoted))"

definition parse_csv :: "string \<Rightarrow> string list list" where
  "parse_csv s =
     (case foldl csv_step ([], [], [], FieldStart) s of
        (rows, cells, cell, pl) \<Rightarrow> rows @ [cells @ [cell]])"

text \<open>
  A cell value with a carriage return and none of the characters that make the export
  quote it.
\<close>

definition bareReturn :: "string \<Rightarrow> bool" where
  "bareReturn v \<longleftrightarrow>
     creturn \<in> set v \<and> CHR '','' \<notin> set v \<and> dquote \<notin> set v \<and> newline \<notin> set v"

section \<open>Properties of the calendar and of the billing cycles\<close>

lemma div_bracket:
  fixes a k :: int
  assumes "0 < k"
  shows "k * (a div k) \<le> a" "a < k * (a div k) + k"
proof -
  have "k * (a div k) + a mod k = a" by (rule mult_div_mod_eq)
  moreover have "0 \<le> a mod k" "a mod k < k" using assms by simp_all
  ultimately show "k * (a div k) \<le> a" "a < k * (a div k) + k" by linarith+
qed

lemma div_step:
  fixes a k :: int
  assumes "0 < k"
  shows "(a + 1) div k = a div k + (if (a + 1) mod k = 0 then 1 else 0)"
proof -
  have eq: "k * (a div k) + a mod k = a" by (rule mult_div_mod_eq)
  have r: "0 \<le> a mod k" "a mod k < k" using assms by simp_all
  show ?thesis
  proof (cases "a mod k + 1 = k")
    case True
    have "k * (a div k + 1) = k * (a div k) + k" by (simp add: algebra_simps)
    then have "a + 1 = k * (a div k + 1) + 0" using eq True by linarith
    then have "(a + 1) div k = a div k + 1" "(a + 1) mod k = 0"
      using int_div_pos_eq [of "a + 1" k "a div k + 1" 0]
        int_mod_pos_eq [of "a + 1" k "a div k + 1" 0] assms by simp_all
    then show ?thesis by simp
  next
    case False
    then have lt: "a mod k + 1 < k" using r by linarith
    have "a + 1 = k * (a div k) + (a mod k + 1)" using eq by linarith
    then have "(a + 1) div k = a div k" "(a + 1) mod k = a mod k + 1"
      using int_div_pos_eq [of "a + 1" k "a div k" "a mod k + 1"]
        int_mod_pos_eq [of "a + 1" k "a div k" "a mod k + 1"] r lt by simp_all
    then show ?thesis using r by simp
  qed
qed

lemma mod_4_shift: "(y - 1968) mod 4 = y mod (4::int)"
  using mod_mult_self2 [of y 4 "- 492"] by simp
lemma mod_100_shift: "(y - 1900) mod 100 = y mod (100::int)"
  using mod_mult_self2 [of y 100 "- 19"] by simp
lemma mod_400_shift: "(y - 1600) mod 400 = y mod (400::int)"
  using mod_mult_self2 [of y 400 "- 4"] by simp
lemma mod_400_100: "y mod 400 = 0 \<Longrightarrow> y mod (100::int) = 0"
  using mod_mod_cancel [of 100 400 y] by simp
lemma mod_100_4: "y mod 100 = 0 \<Longrightarrow> y mod (4::int) = 0"
  using mod_mod_cancel [of 4 100 y] by simp

lemma DayFromYear_step: "DayFromYear (y + 1) = DayFromYear y + DaysInYear y"
proof -
  have a: "(y + 1 - 1969) div 4 = (y - 1969) div 4 + (if y mod 4 = 0 then 1 else 0)"
    using div_step [of 4 "y - 1969"] mod_4_shift [of y] by (simp add: algebra_simps)
  have b: "(y + 1 - 1901) div 100 = (y - 1901) div 100 + (if y mod 100 = 0 then 1 else 0)"
    using div_step [of 100 "y - 1901"] mod_100_shift [of y] by (simp add: algebra_simps)
  have c: "(y + 1 - 1601) div 400 = (y - 1601) div 400 + (if y mod 400 = 0 then 1 else 0)"
    using div_step [of 400 "y - 1601"] mod_400_shift [of y] by (simp add: algebra_simps)
  show ?thesis
    unfolding DayFromYear_def DaysInYear_def a b c using mod_400_100 [of y] mod_100_4 [of y] by auto
qed

lemma DaysInYear_pos: "365 \<le> DaysInYear y" "DaysInYear y \<le> 366"
  by (simp_all add: DaysInYear_def)

lemma DayFromYear_less: "DayFromYear y < DayFromYear (y + 1)"
  using DaysInYear_pos(1) [of y] by (simp add: DayFromYear_step)

lemma DayFromYear_mono: "y \<le> y' \<Longrightarrow> DayFromYear y \<le> DayFromYear y'"
proof (induction y' rule: int_ge_induct)
  case base
  show ?case by simp
next
  case (step i)
  then show ?case using DayFromYear_less [of i] by linarith
qed

lemma year_unique:
  assumes "DayFromYear a \<le> n" "n < DayFromYear (a + 1)"
    and "DayFromYear b \<le> n" "n < DayFromYear (b + 1)"
  shows "a = b"
proof (rule ccontr)
  assume "a \<noteq> b"
  then consider "a + 1 \<le> b" | "b + 1 \<le> a" by linarith
  then show False
  proof cases
    case 1
    from DayFromYear_mono [OF 1] assms show False by linarith
  next
    case 2
    from DayFromYear_mono [OF 2] assms show False by linarith
  qed
qed

lemma DayFromYear_approx:
  "400 * DayFromYear y \<le> 146097 * y - 287810501"
  "146097 * y - 287811596 \<le> 400 * DayFromYear y"
proof -
  define a where "a = (y - 1969) div 4"
  define b where "b = (y - 1901) div 100"
  define c where "c = (y - 1601) div 400"
  have a: "4 * a \<le> y - 1969" "y - 1969 < 4 * a + 4"
    unfolding a_def using div_bracket [of 4 "y - 1969"] by simp_all
  have b: "100 * b \<le> y - 1901" "y - 1901 < 100 * b + 100"
    unfolding b_def using div_bracket [of 100 "y - 1901"] by simp_all
  have c: "400 * c \<le> y - 1601" "y - 1601 < 400 * c + 400"
    unfolding c_def using div_bracket [of 400 "y - 1601"] by simp_all
  have D: "DayFromYear y = 365 * y - 719050 + a - b + c"
    by (simp add: DayFromYear_def a_def b_def c_def)
  show "400 * DayFromYear y \<le> 146097 * y - 287810501"
    using a b c D by linarith
  show "146097 * y - 287811596 \<le> 400 * DayFromYear y"
    using a b c D by linarith
qed

lemma YearFromDay_bounds:
  "DayFromYear (YearFromDay n) \<le> n" "n < DayFromYear (YearFromDay n + 1)"
proof -
  define y where "y = 1970 + (400 * n) div 146097"
  define q where "q = (400 * n) div 146097"
  have q: "146097 * q \<le> 400 * n" "400 * n < 146097 * q + 146097"
    unfolding q_def using div_bracket [of 146097 "400 * n"] by simp_all
  have y: "y = 1970 + q" by (simp add: y_def q_def)
  define u where "u = y - 1"
  define v where "v = y + 2"
  have "DayFromYear u \<le> n"
    using DayFromYear_approx(1) [of u] q y u_def by linarith
  then have lo: "DayFromYear (y - 1) \<le> n" by (simp add: u_def)
  have "n < DayFromYear v"
    using DayFromYear_approx(2) [of v] q y v_def by linarith
  then have hi: "n < DayFromYear (y + 2)" by (simp add: v_def)
  have eq: "YearFromDay n = (if n < DayFromYear y then y - 1
         else if DayFromYear (y + 1) \<le> n then y + 1 else y)"
    by (simp add: YearFromDay_def y_def Let_def)
  show "DayFromYear (YearFromDay n) \<le> n"
    using lo by (simp add: eq)
  have two: "y + 1 + 1 = y + 2" by simp
  show "n < DayFromYear (YearFromDay n + 1)"
  proof (cases "n < DayFromYear y")
    case True
    then show ?thesis by (simp add: eq)
  next
    case False
    show ?thesis
    proof (cases "DayFromYear (y + 1) \<le> n")
      case True
      with False have "YearFromDay n = y + 1" by (simp add: eq)
      then show ?thesis using hi by (simp only: two)
    next
      case False
      with \<open>\<not> n < DayFromYear y\<close> have "YearFromDay n = y" by (simp add: eq)
      then show ?thesis using False by simp
    qed
  qed
qed

lemma YearFromDay_eq:
  assumes "0 \<le> k" "k < DaysInYear y"
  shows "YearFromDay (DayFromYear y + k) = y"
proof -
  let ?n = "DayFromYear y + k"
  have "DayFromYear y \<le> ?n" "?n < DayFromYear (y + 1)"
    using assms by (simp_all add: DayFromYear_step)
  with YearFromDay_bounds [of ?n] show ?thesis
    using year_unique by blast
qed


lemma MonthOfDayInYear_range: "0 \<le> MonthOfDayInYear l d" "MonthOfDayInYear l d \<le> 11"
  by (simp_all add: MonthOfDayInYear_def)

lemma Day_MakeDate:
  assumes "0 \<le> tm" "tm < msPerDay"
  shows "Day (MakeDate n tm) = n"
proof -
  have "MakeDate n tm = msPerDay * n + tm" by (simp add: MakeDate_def)
  moreover have "0 < msPerDay" by (simp add: msPerDay_def)
  ultimately show ?thesis
    unfolding Day_def using assms int_div_pos_eq [of "MakeDate n tm" msPerDay n tm] by simp
qed

lemma month_cases:
  fixes m :: int
  assumes "0 \<le> m" "m \<le> 11"
  shows "m = 0 \<or> m = 1 \<or> m = 2 \<or> m = 3 \<or> m = 4 \<or> m = 5
    \<or> m = 6 \<or> m = 7 \<or> m = 8 \<or> m = 9 \<or> m = 10 \<or> m = 11"
  using assms by presburger


lemma LeapOf_cases:
  "LeapOf y = 0 \<and> DaysInYear y = 365 \<or> LeapOf y = 1 \<and> DaysInYear y = 366"
  by (simp add: LeapOf_def DaysInYear_def)

lemma DaysInMonth_LeapOf:
  "DaysInMonth y m =
     (if m = 1 then 28 + LeapOf y else if m = 3 \<or> m = 5 \<or> m = 8 \<or> m = 10 then 30 else 31)"
  by (simp add: DaysInMonth_def LeapOf_def)

lemma MonthStart_next:
  assumes "0 \<le> m" "m < 11"
  shows "MonthStart (LeapOf y) (m + 1) = MonthStart (LeapOf y) m + DaysInMonth y m"
proof -
  have "m \<le> 11" using assms by simp
  from month_cases [OF assms(1) this] assms(2) show ?thesis
    by (elim disjE; simp add: MonthStart_def DaysInMonth_LeapOf)
qed

lemma MonthStart_last: "MonthStart (LeapOf y) 11 + DaysInMonth y 11 = DaysInYear y"
  using LeapOf_cases [of y] by (auto simp add: MonthStart_def DaysInMonth_LeapOf)

lemma day_in_year_civil:
  assumes "0 \<le> m" "m \<le> 11" "1 \<le> d" "d \<le> DaysInMonth y m"
  shows "0 \<le> MonthStart (LeapOf y) m + d - 1"
    and "MonthStart (LeapOf y) m + d - 1 < DaysInYear y"
    and "MonthOfDayInYear (LeapOf y) (MonthStart (LeapOf y) m + d - 1) = m"
proof -
  note defs = MonthStart_def DaysInMonth_LeapOf MonthOfDayInYear_def
  show "0 \<le> MonthStart (LeapOf y) m + d - 1"
    using month_cases [OF assms(1,2)] assms(3,4) LeapOf_cases [of y]
    by (elim disjE conjE; simp add: defs)
  show "MonthStart (LeapOf y) m + d - 1 < DaysInYear y"
    using month_cases [OF assms(1,2)] assms(3,4) LeapOf_cases [of y]
    by (elim disjE conjE; simp add: defs)
  show "MonthOfDayInYear (LeapOf y) (MonthStart (LeapOf y) m + d - 1) = m"
    using month_cases [OF assms(1,2)] assms(3,4) LeapOf_cases [of y]
    by (elim disjE conjE; simp add: defs)
qed

lemma MakeDay_in_year:
  assumes "0 \<le> m" "m \<le> 11"
  shows "MakeDay y m d = DayFromYear y + (MonthStart (LeapOf y) m + d - 1)"
proof -
  have "m div 12 = 0" "m mod 12 = m" using assms by simp_all
  then show ?thesis by (simp add: MakeDay_def LeapOf_def)
qed

lemma MakeDay_end:
  assumes "0 \<le> m" "m \<le> 11"
  shows "MakeDay y (m + 1) 0 = MakeDay y m (DaysInMonth y m)"
proof (cases "m = 11")
  case True
  have "MakeDay y 12 0 = DayFromYear (y + 1) - 1"
    by (simp add: MakeDay_def MonthStart_def)
  also have "\<dots> = DayFromYear y + (MonthStart (LeapOf y) 11 + DaysInMonth y 11 - 1)"
    using MonthStart_last [of y] by (simp add: DayFromYear_step)
  also have "\<dots> = MakeDay y 11 (DaysInMonth y 11)"
    by (simp add: MakeDay_in_year)
  finally show ?thesis using True by simp
next
  case False
  then have lt: "m < 11" using assms by simp
  have "MakeDay y (m + 1) 0 = DayFromYear y + (MonthStart (LeapOf y) (m + 1) + 0 - 1)"
    using assms lt by (intro MakeDay_in_year) simp_all
  also have "\<dots> = DayFromYear y + (MonthStart (LeapOf y) m + DaysInMonth y m - 1)"
    using MonthStart_next [OF assms(1) lt] by simp
  also have "\<dots> = MakeDay y m (DaysInMonth y m)"
    using assms by (simp add: MakeDay_in_year)
  finally show ?thesis .
qed

lemma MakeTime_zero: "MakeTime 0 0 0 0 = 0"
  by (simp add: MakeTime_def)

lemma civil_of_time:
  assumes "0 \<le> m" "m \<le> 11" "1 \<le> d" "d \<le> DaysInMonth y m" "0 \<le> tm" "tm < msPerDay"
  shows "YearFromTime (MakeDate (MakeDay y m d) tm) = y"
    and "MonthFromTime (MakeDate (MakeDay y m d) tm) = m"
    and "DateFromTime (MakeDate (MakeDay y m d) tm) = d"
    and "Day (MakeDate (MakeDay y m d) tm) = MakeDay y m d"
proof -
  let ?k = "MonthStart (LeapOf y) m + d - 1"
  let ?t = "MakeDate (MakeDay y m d) tm"
  note k = day_in_year_civil [OF assms(1-4)]
  show "Day ?t = MakeDay y m d"
    using assms(5,6) by (rule Day_MakeDate)
  then have day: "Day ?t = DayFromYear y + ?k"
    using assms(1,2) by (simp add: MakeDay_in_year)
  show yr: "YearFromTime ?t = y"
    unfolding YearFromTime_def day using k(1,2) by (rule YearFromDay_eq)
  have leap: "InLeapYear ?t = LeapOf y"
    by (simp add: InLeapYear_def yr LeapOf_def)
  have diy: "DayWithinYear ?t = ?k"
    by (simp add: DayWithinYear_def yr day)
  show mo: "MonthFromTime ?t = m"
    by (simp only: MonthFromTime_def leap diy k(3))
  show "DateFromTime ?t = d"
    by (simp add: DateFromTime_def leap diy mo)
qed

lemma civil_of_midnight:
  assumes "0 \<le> m" "m \<le> 11" "1 \<le> d" "d \<le> DaysInMonth y m"
  shows "YearFromTime (MakeDate (MakeDay y m d) 0) = y"
    and "MonthFromTime (MakeDate (MakeDay y m d) 0) = m"
    and "DateFromTime (MakeDate (MakeDay y m d) 0) = d"
  using civil_of_time [OF assms, of 0] by (simp_all add: msPerDay_def)

lemma DaysInMonth_range: "28 \<le> DaysInMonth y m" "DaysInMonth y m \<le> 31"
  by (simp_all add: DaysInMonth_def)


lemma DayFromYear_range:
  assumes "- 270000 \<le> y" "y \<le> 270000"
  shows "- 99400000 \<le> DayFromYear y" "DayFromYear y \<le> 99400000"
  using DayFromYear_approx [of y] assms by linarith+

lemma TimeClip_civil:
  assumes "\<bar>tza\<bar> \<le> 86400000" "- 270000 \<le> y" "y \<le> 270000"
    and "0 \<le> m" "m \<le> 11" "1 \<le> d" "d \<le> DaysInMonth y m"
  shows "TimeClip (UTC tza (MakeDate (MakeDay y m d) 0)) = Some (MakeDate (MakeDay y m d) 0 - tza)"
proof -
  let ?k = "MonthStart (LeapOf y) m + d - 1"
  note k = day_in_year_civil(1,2) [OF assms(4-7)]
  have "?k < 366" using k(2) DaysInYear_pos(2) [of y] by linarith
  then have "\<bar>MakeDay y m d\<bar> \<le> 99400366"
    using k(1) DayFromYear_range [OF assms(2,3)] assms(4,5) by (simp add: MakeDay_in_year)
  then have "\<bar>MakeDate (MakeDay y m d) 0 - tza\<bar> \<le> 8640000000000000"
    using assms(1) by (simp add: MakeDate_def msPerDay_def)
  then show ?thesis by (simp add: TimeClip_def UTC_def)
qed

lemma getters_local:
  "getFullYear tza (Some (x - tza)) = Some (YearFromTime x)"
  "getMonth tza (Some (x - tza)) = Some (MonthFromTime x)"
  "getDate tza (Some (x - tza)) = Some (DateFromTime x)"
  by (simp_all add: getFullYear_def getMonth_def getDate_def LocalTime_def)

lemma formatDate_civil:
  assumes "0 \<le> m" "m \<le> 11" "1 \<le> d" "d \<le> DaysInMonth y m"
  shows "formatDate tza (Some (MakeDate (MakeDay y m d) 0 - tza)) =
         String_int y @ ''-'' @ padStart2 (String_int (m + 1)) @ ''-'' @ padStart2 (String_int d)"
  by (simp add: formatDate_def getters_local civil_of_midnight [OF assms] String_num_def num_plus_def)

lemma digits_of_1: "n < 10 \<Longrightarrow> digits_of n = [dg n]"
  by (simp add: digits_of.simps)

lemma digits_of_2: "10 \<le> n \<Longrightarrow> n < 100 \<Longrightarrow> digits_of n = [dg (n div 10), dg (n mod 10)]"
  by (subst digits_of.simps) (simp add: digits_of_1)

lemma digits_of_3:
  "100 \<le> n \<Longrightarrow> n < 1000 \<Longrightarrow> digits_of n = [dg (n div 100), dg (n div 10 mod 10), dg (n mod 10)]"
  by (subst digits_of.simps) (simp add: digits_of_2 div_mult2_eq [symmetric])

lemma digits_of_4:
  "1000 \<le> n \<Longrightarrow> n < 10000 \<Longrightarrow>
   digits_of n = [dg (n div 1000), dg (n div 100 mod 10), dg (n div 10 mod 10), dg (n mod 10)]"
  by (subst digits_of.simps) (simp add: digits_of_3 div_mult2_eq [symmetric])

lemma String_int_fmt4:
  assumes "1000 \<le> y" "y \<le> 9999"
  shows "String_int y = fmt4 y"
proof -
  have n: "1000 \<le> nat y" "nat y < 10000" using assms by simp_all
  have d: "nat y div 1000 = nat (y div 1000)" "nat y div 100 mod 10 = nat (y div 100 mod 10)"
    "nat y div 10 mod 10 = nat (y div 10 mod 10)" "nat y mod 10 = nat (y mod 10)"
    using assms by (simp_all add: nat_div_distrib nat_mod_distrib)
  show ?thesis
    using assms by (simp add: String_int_def digits_of_4 [OF n] d fmt4_def)
qed

lemma dg_0: "dg 0 = CHR ''0''"
  by (simp add: dg_def)

lemma padStart2_fmt2:
  assumes "0 \<le> k" "k \<le> 99"
  shows "padStart2 (String_int k) = fmt2 k"
proof (cases "k < 10")
  case True
  then have "nat k < 10" "k div 10 = 0" "k mod 10 = k" using assms by simp_all
  then show ?thesis
    using assms by (simp add: String_int_def digits_of_1 padStart2_def fmt2_def dg_0)
next
  case False
  then have n: "10 \<le> nat k" "nat k < 100" using assms by simp_all
  have d: "nat k div 10 = nat (k div 10)" "nat k mod 10 = nat (k mod 10)"
    using assms by (simp_all add: nat_div_distrib nat_mod_distrib)
  show ?thesis
    using assms by (simp add: String_int_def digits_of_2 [OF n] d padStart2_def fmt2_def)
qed

lemma cycle_body:
  assumes "\<bar>tza\<bar> \<le> 86400000" "1000 \<le> y" "y \<le> 9999" "1 \<le> mo" "mo \<le> 12"
  shows "formatDate tza (Date_ymd tza (Some y) (num_plus (Some mo) (- 1)) (Some 1)) = iso_date y mo 1"
    and "formatDate tza (Date_ymd tza (Some y) (Some mo) (Some 0)) = iso_date y mo (DaysInMonth y (mo - 1))"
    and "formatDate tza (Date_ymd tza (Some y) (num_plus (Some mo) (- 1)) (Some 1)) =
         formatDate tza (civilDate tza y (mo - 1) 1)"
    and "formatDate tza (Date_ymd tza (Some y) (Some mo) (Some 0)) =
         formatDate tza (civilDate tza y (mo - 1) (DaysInMonth y (mo - 1)))"
proof -
  let ?m = "mo - 1"
  have m: "0 \<le> ?m" "?m \<le> 11" using assms by simp_all
  have yr: "- 270000 \<le> y" "y \<le> 270000" "(if 0 \<le> y \<and> y \<le> 99 then 1900 + y else y) = y"
    using assms by simp_all
  have mod_400_100: "(1::int) \<le> 1" "1 \<le> DaysInMonth y ?m" using DaysInMonth_range(1) [of y ?m] by simp_all
  have dl: "1 \<le> DaysInMonth y ?m" "DaysInMonth y ?m \<le> DaysInMonth y ?m"
    using DaysInMonth_range(1) [of y ?m] by simp_all
  have start: "Date_ymd tza (Some y) (num_plus (Some mo) (- 1)) (Some 1)
      = Some (MakeDate (MakeDay y ?m 1) 0 - tza)"
    using TimeClip_civil [OF assms(1) yr(1,2) m mod_400_100] yr(3)
    by (simp add: Date_ymd_def num_plus_def MakeTime_zero Let_def)
  have "MakeDay y mo 0 = MakeDay y ?m (DaysInMonth y ?m)"
    using MakeDay_end [OF m, of y] by simp
  then have end': "Date_ymd tza (Some y) (Some mo) (Some 0)
      = Some (MakeDate (MakeDay y ?m (DaysInMonth y ?m)) 0 - tza)"
    using TimeClip_civil [OF assms(1) yr(1,2) m dl] yr(3)
    by (simp add: Date_ymd_def MakeTime_zero Let_def)
  have mo2: "padStart2 (String_int mo) = fmt2 mo"
    using assms by (intro padStart2_fmt2) simp_all
  have dd: "padStart2 (String_int (DaysInMonth y ?m)) = fmt2 (DaysInMonth y ?m)"
    using DaysInMonth_range [of y ?m] by (intro padStart2_fmt2) simp_all
  have one: "padStart2 (String_int 1) = fmt2 1"
    by (intro padStart2_fmt2) simp_all
  show "formatDate tza (Date_ymd tza (Some y) (num_plus (Some mo) (- 1)) (Some 1)) = iso_date y mo 1"
    using formatDate_civil [OF m mod_400_100, of tza] mo2 one String_int_fmt4 [OF assms(2,3)]
    by (simp add: start iso_date_def)
  show "formatDate tza (Date_ymd tza (Some y) (Some mo) (Some 0)) = iso_date y mo (DaysInMonth y (mo - 1))"
    using formatDate_civil [OF m dl, of tza] mo2 dd String_int_fmt4 [OF assms(2,3)]
    by (simp add: end' iso_date_def)
  show "formatDate tza (Date_ymd tza (Some y) (num_plus (Some mo) (- 1)) (Some 1)) =
         formatDate tza (civilDate tza y (mo - 1) 1)"
    by (simp add: start civilDate_def UTC_def MakeTime_zero)
  show "formatDate tza (Date_ymd tza (Some y) (Some mo) (Some 0)) =
         formatDate tza (civilDate tza y (mo - 1) (DaysInMonth y (mo - 1)))"
    by (simp add: end' civilDate_def UTC_def MakeTime_zero)
qed

lemma civilDate_fields:
  assumes "0 \<le> m" "m \<le> 11" "1 \<le> d" "d \<le> DaysInMonth y m"
  shows "getFullYear tza (civilDate tza y m d) = Some y"
    and "getMonth tza (civilDate tza y m d) = Some m"
    and "getDate tza (civilDate tza y m d) = Some d"
  by (simp_all add: civilDate_def UTC_def MakeTime_zero getters_local civil_of_midnight [OF assms])

lemma MonthFromTime_range: "0 \<le> MonthFromTime t" "MonthFromTime t \<le> 11"
  by (simp_all add: MonthFromTime_def MonthOfDayInYear_range)


lemma getBillingCycleForDate_monthCycle:
  assumes "\<bar>tza\<bar> \<le> 86400000" and "toDate date = Some t"
    and "y = YearFromTime (LocalTime tza t)" and "m = MonthFromTime (LocalTime tza t)"
    and "1000 \<le> y" and "y \<le> 9999"
  shows "getBillingCycleForDate tza date = monthCycle y (m + 1)"
    and "getCurrentBillingCycle tza t = monthCycle y (m + 1)"
    and "startDate (getBillingCycleForDate tza date) = formatDate tza (civilDate tza y m 1)"
    and "endDate (getBillingCycleForDate tza date) =
           formatDate tza (civilDate tza y m (DaysInMonth y m))"
proof -
  have m: "1 \<le> m + 1" "m + 1 \<le> 12"
    using MonthFromTime_range [of "LocalTime tza t"] assms(4) by simp_all
  have g: "getFullYear tza (Some t) = Some y" "getMonth tza (Some t) = Some m"
    by (simp_all add: getFullYear_def getMonth_def assms(3,4))
  note b = cycle_body [OF assms(1) assms(5,6) m]
  have c: "getBillingCycleForDate tza date =
      \<lparr>month = Some (m + 1), year = Some y,
       startDate = formatDate tza (Date_ymd tza (Some y) (num_plus (Some (m + 1)) (- 1)) (Some 1)),
       endDate = formatDate tza (Date_ymd tza (Some y) (Some (m + 1)) (Some 0))\<rparr>"
    by (simp add: getBillingCycleForDate_def assms(2) g num_plus_def Let_def)
  have c': "getCurrentBillingCycle tza t =
      \<lparr>month = Some (m + 1), year = Some y,
       startDate = formatDate tza (Date_ymd tza (Some y) (num_plus (Some (m + 1)) (- 1)) (Some 1)),
       endDate = formatDate tza (Date_ymd tza (Some y) (Some (m + 1)) (Some 0))\<rparr>"
    by (simp add: getCurrentBillingCycle_def g num_plus_def Let_def)
  show "getBillingCycleForDate tza date = monthCycle y (m + 1)"
    using b(1,2) by (simp add: c monthCycle_def)
  show "getCurrentBillingCycle tza t = monthCycle y (m + 1)"
    using b(1,2) by (simp add: c' monthCycle_def)
  show "startDate (getBillingCycleForDate tza date) = formatDate tza (civilDate tza y m 1)"
    using b(3) by (simp add: c)
  show "endDate (getBillingCycleForDate tza date) =
           formatDate tza (civilDate tza y m (DaysInMonth y m))"
    using b(4) by (simp add: c)
qed

subsection \<open>Evaluation at concrete dates\<close>

lemma getters_at:
  assumes "LocalTime tza t = MakeDate (MakeDay y m d) tm"
   and "0 \<le> m" "m \<le> 11" "1 \<le> d" "d \<le> DaysInMonth y m" "0 \<le> tm" "tm < msPerDay"
  shows "getFullYear tza (Some t) = Some y" "getMonth tza (Some t) = Some m"
    "getDate tza (Some t) = Some d" "YearFromTime (LocalTime tza t) = y"
    "MonthFromTime (LocalTime tza t) = m" "Day (LocalTime tza t) = MakeDay y m d"
  using civil_of_time [OF assms(2-7)]
  by (simp_all add: getFullYear_def getMonth_def getDate_def assms(1))

lemmas day_eval = MakeDay_def MakeDate_def MakeTime_def DayFromYear_def MonthStart_def
  DaysInYear_def DaysInMonth_def msPerDay_def LocalTime_def UTC_def TimeClip_def

lemma fields_ist:
  "YearFromTime (LocalTime 19800000 1709232000000) = 2024"
  "MonthFromTime (LocalTime 19800000 1709232000000) = 2"
proof -
  have "LocalTime 19800000 1709232000000 = MakeDate (MakeDay 2024 2 1) 600000"
    by (simp add: day_eval)
  from getters_at(4,5) [OF this]
  show "YearFromTime (LocalTime 19800000 1709232000000) = 2024"
    "MonthFromTime (LocalTime 19800000 1709232000000) = 2"
    by (simp_all add: day_eval)
qed

lemmas fmt_eval = monthCycle_def iso_date_def iso_month_def fmt2_def fmt4_def dg_def
  DaysInMonth_def DaysInYear_def

lemma isDateInBillingCycle_iff:
  "isDateInBillingCycle tza date cycleStart cycleEnd \<longleftrightarrow>
     (\<exists>t a b. toDate date = Some t \<and> Date_parse cycleStart = Some a
        \<and> setHours tza (Date_parse cycleEnd) 23 59 59 999 = Some b \<and> a \<le> t \<and> t \<le> b)"
  by (auto simp add: isDateInBillingCycle_def num_le_def Let_def split: option.splits)

lemma parse_2024:
  "Date_parse ''2024-02-01'' = Some 1706745600000"
  "Date_parse ''2024-02-29'' = Some 1709164800000"
  "Date_parse ''2024-03-01'' = Some 1709251200000"
  "Date_parse ''2024-03-31'' = Some 1711843200000"
  by (simp_all add: Date_parse_def digit_val_def day_eval)

lemma cycle_record:
  assumes "\<bar>tza\<bar> \<le> 86400000" "1000 \<le> y" "y \<le> 9999" "1 \<le> mo" "mo \<le> 12"
  shows "\<lparr>month = Some mo, year = Some y,
          startDate = formatDate tza (Date_ymd tza (Some y) (num_plus (Some mo) (- 1)) (Some 1)),
          endDate = formatDate tza (Date_ymd tza (Some y) (Some mo) (Some 0))\<rparr> = monthCycle y mo"
  using cycle_body(1,2) [OF assms] by (simp add: monthCycle_def)

lemma getBillingCycleId_given:
  assumes "1 \<le> mo" "mo \<le> 12" "1000 \<le> y" "y \<le> 9999"
  shows "getBillingCycleId tza now (Some (Some mo)) (Some (Some y)) = iso_month y mo"
proof -
  have "padStart2 (String_int mo) = fmt2 mo"
    using assms by (intro padStart2_fmt2) simp_all
  then show ?thesis
    using String_int_fmt4 [OF assms(3,4)]
    by (simp add: getBillingCycleId_def String_num_def iso_month_def)
qed

lemma fields_jan:
  "YearFromTime (LocalTime 19800000 1705300000000) = 2024"
  "MonthFromTime (LocalTime 19800000 1705300000000) = 0"
proof -
  have "LocalTime 19800000 1705300000000 = MakeDate (MakeDay 2024 0 15) 43000000"
    by (simp add: day_eval)
  from getters_at(4,5) [OF this]
  show "YearFromTime (LocalTime 19800000 1705300000000) = 2024"
    "MonthFromTime (LocalTime 19800000 1705300000000) = 0"
    by (simp_all add: day_eval)
qed



lemma fields_west:
  "YearFromTime (LocalTime (- 18000000) 1709251200000) = 2024"
  "MonthFromTime (LocalTime (- 18000000) 1709251200000) = 1"
proof -
  have "LocalTime (- 18000000) 1709251200000 = MakeDate (MakeDay 2024 1 29) 68400000"
    by (simp add: day_eval)
  from getters_at(4,5) [OF this]
  show "YearFromTime (LocalTime (- 18000000) 1709251200000) = 2024"
    "MonthFromTime (LocalTime (- 18000000) 1709251200000) = 1"
    by (simp_all add: day_eval)
qed

lemma fields_utc:
  "YearFromTime (LocalTime 0 1709232000000) = 2024"
  "MonthFromTime (LocalTime 0 1709232000000) = 1"
proof -
  have "LocalTime 0 1709232000000 = MakeDate (MakeDay 2024 1 29) 67200000"
    by (simp add: day_eval)
  from getters_at(4,5) [OF this]
  show "YearFromTime (LocalTime 0 1709232000000) = 2024"
    "MonthFromTime (LocalTime 0 1709232000000) = 1"
    by (simp_all add: day_eval)
qed

lemma parse_2025:
  "Date_parse ''2025-01-01'' = Some 1735689600000"
  by (simp add: Date_parse_def digit_val_def day_eval)

lemma fields_west_new_year:
  "YearFromTime (LocalTime (- 18000000) 1735689600000) = 2024"
  "MonthFromTime (LocalTime (- 18000000) 1735689600000) = 11"
proof -
  have "LocalTime (- 18000000) 1735689600000 = MakeDate (MakeDay 2024 11 31) 68400000"
    by (simp add: day_eval)
  from getters_at(4,5) [OF this]
  show "YearFromTime (LocalTime (- 18000000) 1735689600000) = 2024"
    "MonthFromTime (LocalTime (- 18000000) 1735689600000) = 11"
    by (simp_all add: day_eval)
qed

lemma fields_utc_march:
  "YearFromTime (LocalTime 0 1709251200000) = 2024"
  "MonthFromTime (LocalTime 0 1709251200000) = 2"
proof -
  have "LocalTime 0 1709251200000 = MakeDate (MakeDay 2024 2 1) 0"
    by (simp add: day_eval)
  from getters_at(4,5) [OF this]
  show "YearFromTime (LocalTime 0 1709251200000) = 2024"
    "MonthFromTime (LocalTime 0 1709251200000) = 2"
    by (simp_all add: day_eval)
qed

subsection \<open>The claims about billing cycles\<close>

text \<open>
  Claim C1. For every valid date, \<open>getBillingCycleForDate\<close> returns the date's calendar
  month (1 to 12) and year, and as \<open>startDate\<close> and \<open>endDate\<close> the first and the last day
  of that month in the format \<open>YYYY-MM-DD\<close>.

  The code does not meet this for the date strings that its caller
  \<open>updateCycleTotalForDate\<close> passes. \<open>new Date('2024-03-01')\<close> is midnight UTC, while
  \<open>getFullYear\<close> and \<open>getMonth\<close> read the instant in local time. Five hours west of UTC
  that instant is 29 February, 19:00, so the billing date 2024-03-01 gets the cycle of
  February 2024, and the billing date 2025-01-01 the cycle of December 2024, with the
  year wrong as well. Where local time is UTC the first date gets the cycle of March 2024.
  It is the defect of claim C5: date strings are read as UTC, their fields in local time.
\<close>

theorem getBillingCycleForDate_date_string_west_of_utc:
  "toDate (DateStr ''2024-03-01'') = Some 1709251200000
   \<and> getBillingCycleForDate (- 18000000) (DateStr ''2024-03-01'') =
      \<lparr>month = Some 2, year = Some 2024, startDate = ''2024-02-01'', endDate = ''2024-02-29''\<rparr>
   \<and> toDate (DateStr ''2025-01-01'') = Some 1735689600000
   \<and> getBillingCycleForDate (- 18000000) (DateStr ''2025-01-01'') =
      \<lparr>month = Some 12, year = Some 2024, startDate = ''2024-12-01'', endDate = ''2024-12-31''\<rparr>
   \<and> getBillingCycleForDate 0 (DateStr ''2024-03-01'') =
      \<lparr>month = Some 3, year = Some 2024, startDate = ''2024-03-01'', endDate = ''2024-03-31''\<rparr>"
proof -
  have mc: "monthCycle 2024 (1 + 1) =
      \<lparr>month = Some 2, year = Some 2024, startDate = ''2024-02-01'', endDate = ''2024-02-29''\<rparr>"
    "monthCycle 2024 (11 + 1) =
      \<lparr>month = Some 12, year = Some 2024, startDate = ''2024-12-01'', endDate = ''2024-12-31''\<rparr>"
    "monthCycle 2024 (2 + 1) =
      \<lparr>month = Some 3, year = Some 2024, startDate = ''2024-03-01'', endDate = ''2024-03-31''\<rparr>"
    by (simp_all add: fmt_eval)
  have t: "toDate (DateStr ''2024-03-01'') = Some 1709251200000"
    "toDate (DateStr ''2025-01-01'') = Some 1735689600000"
    by (simp_all add: toDate_def parse_2024 parse_2025)
  have c1: "getBillingCycleForDate (- 18000000) (DateStr ''2024-03-01'') = monthCycle 2024 (1 + 1)"
    by (rule getBillingCycleForDate_monthCycle(1) [where t = 1709251200000])
       (simp_all add: t fields_west)
  have c2: "getBillingCycleForDate (- 18000000) (DateStr ''2025-01-01'') = monthCycle 2024 (11 + 1)"
    by (rule getBillingCycleForDate_monthCycle(1) [where t = 1735689600000])
       (simp_all add: t fields_west_new_year)
  have c3: "getBillingCycleForDate 0 (DateStr ''2024-03-01'') = monthCycle 2024 (2 + 1)"
    by (rule getBillingCycleForDate_monthCycle(1) [where t = 1709251200000])
       (simp_all add: t fields_utc_march)
  from t c1 c2 c3 mc show ?thesis by simp
qed

text \<open>
  Claim C5. The claim says that a date always lies inside its own billing cycle. The code
  reads the cycle's \<open>YYYY-MM-DD\<close> strings as UTC midnights but computes them, and the end of
  the last day, in local time. In India (UTC+5:30) the instant 2024-03-01 00:10 local time
  has the cycle 2024-03-01 to 2024-03-31, and \<open>isDateInBillingCycle\<close> answers false for it;
  five hours west of UTC the date string \<open>2024-03-01\<close> has the cycle 2024-02-01 to
  2024-02-29 and is not in it either. In UTC the first instant is in its cycle.
\<close>

theorem isDateInBillingCycle_excludes_own_date:
  "getBillingCycleForDate 19800000 (DateObj (Some 1709232000000)) =
      \<lparr>month = Some 3, year = Some 2024, startDate = ''2024-03-01'', endDate = ''2024-03-31''\<rparr>
   \<and> \<not> isDateInBillingCycle 19800000 (DateObj (Some 1709232000000)) ''2024-03-01'' ''2024-03-31''
   \<and> getBillingCycleForDate (- 18000000) (DateStr ''2024-03-01'') =
      \<lparr>month = Some 2, year = Some 2024, startDate = ''2024-02-01'', endDate = ''2024-02-29''\<rparr>
   \<and> \<not> isDateInBillingCycle (- 18000000) (DateStr ''2024-03-01'') ''2024-02-01'' ''2024-02-29''
   \<and> getBillingCycleForDate 0 (DateObj (Some 1709232000000)) =
      \<lparr>month = Some 2, year = Some 2024, startDate = ''2024-02-01'', endDate = ''2024-02-29''\<rparr>
   \<and> isDateInBillingCycle 0 (DateObj (Some 1709232000000)) ''2024-02-01'' ''2024-02-29''"
proof -
  have mc: "monthCycle 2024 (2 + 1) =
      \<lparr>month = Some 3, year = Some 2024, startDate = ''2024-03-01'', endDate = ''2024-03-31''\<rparr>"
    "monthCycle 2024 (1 + 1) =
      \<lparr>month = Some 2, year = Some 2024, startDate = ''2024-02-01'', endDate = ''2024-02-29''\<rparr>"
    by (simp_all add: fmt_eval)
  have c1: "getBillingCycleForDate 19800000 (DateObj (Some 1709232000000)) = monthCycle 2024 (2 + 1)"
    by (rule getBillingCycleForDate_monthCycle(1) [where t = 1709232000000])
       (simp_all add: toDate_def fields_ist)
  have n1: "\<not> isDateInBillingCycle 19800000 (DateObj (Some 1709232000000)) ''2024-03-01'' ''2024-03-31''"
    by (simp add: isDateInBillingCycle_def toDate_def parse_2024 num_le_def)
  have c2: "getBillingCycleForDate (- 18000000) (DateStr ''2024-03-01'') = monthCycle 2024 (1 + 1)"
    by (rule getBillingCycleForDate_monthCycle(1) [where t = 1709251200000])
       (simp_all add: toDate_def parse_2024 fields_west)
  have e2: "setHours (- 18000000) (Some 1709164800000) 23 59 59 999 = Some 1709182799999"
    by (simp add: setHours_def Day_def day_eval)
  have n2: "\<not> isDateInBillingCycle (- 18000000) (DateStr ''2024-03-01'') ''2024-02-01'' ''2024-02-29''"
    by (simp add: isDateInBillingCycle_def toDate_def parse_2024 e2 num_le_def)
  have c3: "getBillingCycleForDate 0 (DateObj (Some 1709232000000)) = monthCycle 2024 (1 + 1)"
    by (rule getBillingCycleForDate_monthCycle(1) [where t = 1709232000000])
       (simp_all add: toDate_def fields_utc)
  have e3: "setHours 0 (Some 1709164800000) 23 59 59 999 = Some 1709251199999"
    by (simp add: setHours_def Day_def day_eval)
  have p3: "isDateInBillingCycle 0 (DateObj (Some 1709232000000)) ''2024-02-01'' ''2024-02-29''"
    by (simp add: isDateInBillingCycle_def toDate_def parse_2024 e3 num_le_def)
  from c1 n1 c2 n2 c3 p3 mc show ?thesis by simp
qed

text \<open>
  Claim C6. When the clock shows a date of year \<open>y\<close> and month index \<open>m\<close>,
  \<open>getPreviousBillingCycle\<close> returns the month before, December of \<open>y - 1\<close> in January,
  and \<open>getNextBillingCycle\<close> the month after, January of \<open>y + 1\<close> in December, each with
  the first and last day of that month in the format \<open>YYYY-MM-DD\<close>; for a month from 1
  to 12 and a year \<open>getBillingCycleId\<close> yields \<open>YYYY-MM\<close> with the month padded to two
  digits, and so it does for the current month and year. The years are those of billing
  cycles and of the clock, which have four digits.
\<close>

theorem previous_next_cycle:
  assumes "\<bar>tza\<bar> \<le> 86400000"
    and "y = YearFromTime (LocalTime tza now)" and "m = MonthFromTime (LocalTime tza now)"
    and "1001 \<le> y" and "y \<le> 9998"
    and "1 \<le> mo" and "mo \<le> 12" and "1000 \<le> yr" and "yr \<le> 9999"
  shows "getPreviousBillingCycle tza now = (if m = 0 then monthCycle (y - 1) 12 else monthCycle y m)
       \<and> getNextBillingCycle tza now = (if m = 11 then monthCycle (y + 1) 1 else monthCycle y (m + 2))
       \<and> getBillingCycleId tza now (Some (Some mo)) (Some (Some yr)) = iso_month yr mo
       \<and> getBillingCycleId tza now None None = iso_month y (m + 1)"
proof -
  have mr: "0 \<le> m" "m \<le> 11"
    using MonthFromTime_range [of "LocalTime tza now"] assms(3) by simp_all
  have g: "getFullYear tza (Some now) = Some y" "getMonth tza (Some now) = Some m"
    by (simp_all add: getFullYear_def getMonth_def assms(2,3))
  have prev: "getPreviousBillingCycle tza now = (if m = 0 then monthCycle (y - 1) 12 else monthCycle y m)"
  proof (cases "m = 0")
    case True
    have "1000 \<le> y - 1" "y - 1 \<le> 9999" using assms(4,5) by simp_all
    from cycle_record [OF assms(1) this, of 12] True show ?thesis
      by (simp add: getPreviousBillingCycle_def g num_plus_def Let_def)
  next
    case False
    then have "1 \<le> m" "m \<le> 12" "1000 \<le> y" "y \<le> 9999" using mr assms(4,5) by simp_all
    from cycle_record [OF assms(1) this(3,4,1,2)] False show ?thesis
      by (simp add: getPreviousBillingCycle_def g num_plus_def Let_def)
  qed
  have nxt: "getNextBillingCycle tza now = (if m = 11 then monthCycle (y + 1) 1 else monthCycle y (m + 2))"
  proof (cases "m = 11")
    case True
    have "1000 \<le> y + 1" "y + 1 \<le> 9999" using assms(4,5) by simp_all
    from cycle_record [OF assms(1) this, of 1] True show ?thesis
      by (simp add: getNextBillingCycle_def g num_plus_def Let_def)
  next
    case False
    then have "1 \<le> m + 2" "m + 2 \<le> 12" "1000 \<le> y" "y \<le> 9999" using mr assms(4,5) by simp_all
    from cycle_record [OF assms(1) this(3,4,1,2)] False show ?thesis
      by (simp add: getNextBillingCycle_def g num_plus_def Let_def)
  qed
  have id1: "getBillingCycleId tza now (Some (Some mo)) (Some (Some yr)) = iso_month yr mo"
    using assms(6-9) by (rule getBillingCycleId_given)
  have "padStart2 (String_int (m + 1)) = fmt2 (m + 1)"
    using mr by (intro padStart2_fmt2) simp_all
  moreover have "String_int y = fmt4 y"
    using assms(4,5) by (intro String_int_fmt4) simp_all
  ultimately have id2: "getBillingCycleId tza now None None = iso_month y (m + 1)"
    by (simp add: getBillingCycleId_def g String_num_def iso_month_def num_plus_def)
  from prev nxt id1 id2 show ?thesis by simp
qed


theorem previous_next_cycle_witness:
  "\<bar>19800000\<bar> \<le> (86400000::int)
   \<and> 2024 = YearFromTime (LocalTime 19800000 1705300000000)
   \<and> 0 = MonthFromTime (LocalTime 19800000 1705300000000)
   \<and> (1001::int) \<le> 2024 \<and> (2024::int) \<le> 9998
   \<and> (1::int) \<le> 3 \<and> (3::int) \<le> 12 \<and> (1000::int) \<le> 2025 \<and> (2025::int) \<le> 9999
   \<and> getPreviousBillingCycle 19800000 1705300000000 =
      \<lparr>month = Some 12, year = Some 2023, startDate = ''2023-12-01'', endDate = ''2023-12-31''\<rparr>
   \<and> getNextBillingCycle 19800000 1705300000000 =
      \<lparr>month = Some 2, year = Some 2024, startDate = ''2024-02-01'', endDate = ''2024-02-29''\<rparr>
   \<and> getBillingCycleId 19800000 1705300000000 (Some (Some 3)) (Some (Some 2025)) = ''2025-03''
   \<and> getBillingCycleId 19800000 1705300000000 None None = ''2024-01''"
proof -
  have a: "\<bar>19800000\<bar> \<le> (86400000::int)" by simp
  have y: "2024 = YearFromTime (LocalTime 19800000 1705300000000)"
    and m: "0 = MonthFromTime (LocalTime 19800000 1705300000000)"
    by (simp_all add: fields_jan)
  have r: "(1001::int) \<le> 2024" "(2024::int) \<le> 9998" "(1::int) \<le> 3" "(3::int) \<le> 12"
    "(1000::int) \<le> 2025" "(2025::int) \<le> 9999" by simp_all
  have mc: "monthCycle (2024 - 1) 12 =
      \<lparr>month = Some 12, year = Some 2023, startDate = ''2023-12-01'', endDate = ''2023-12-31''\<rparr>"
    "monthCycle 2024 (0 + 2) =
      \<lparr>month = Some 2, year = Some 2024, startDate = ''2024-02-01'', endDate = ''2024-02-29''\<rparr>"
    "iso_month 2025 3 = ''2025-03''" "iso_month 2024 (0 + 1) = ''2024-01''"
    by (simp_all add: fmt_eval)
  from previous_next_cycle [OF a y m r] mc a y m show ?thesis
    by simp
qed


section \<open>Properties of the report-version lists\<close>

lemma set_insert_by: "set (insert_by cmp x xs) = insert x (set xs)"
  by (induction xs) auto

lemma mset_insert_by: "mset (insert_by cmp x xs) = add_mset x (mset xs)"
  by (induction xs) auto

lemma mset_Array_sort: "mset (Array_sort cmp xs) = mset xs"
  by (induction xs) (simp_all add: Array_sort_def mset_insert_by)

lemma sorted_insert_by:
  assumes tot: "\<And>a b. cmp a b \<le> 0 \<or> cmp b a \<le> 0"
    and trans: "\<And>a b c. cmp a b \<le> 0 \<Longrightarrow> cmp b c \<le> 0 \<Longrightarrow> cmp a c \<le> 0"
    and "sorted_wrt (\<lambda>a b. cmp a b \<le> 0) xs"
  shows "sorted_wrt (\<lambda>a b. cmp a b \<le> 0) (insert_by cmp x xs)"
  using assms(3)
proof (induction xs)
  case Nil
  show ?case by simp
next
  case (Cons y ys)
  show ?case
  proof (cases "cmp x y \<le> 0")
    case True
    then have "\<forall>z\<in>set ys. cmp x z \<le> 0"
      using Cons.prems trans by auto
    with True Cons.prems show ?thesis by simp
  next
    case False
    then have "cmp y x \<le> 0" using tot [of x y] by simp
    with False Cons show ?thesis by (auto simp add: set_insert_by)
  qed
qed

lemma sorted_Array_sort:
  assumes tot: "\<And>a b. cmp a b \<le> 0 \<or> cmp b a \<le> 0"
    and trans: "\<And>a b c. cmp a b \<le> 0 \<Longrightarrow> cmp b c \<le> 0 \<Longrightarrow> cmp a c \<le> 0"
  shows "sorted_wrt (\<lambda>a b. cmp a b \<le> 0) (Array_sort cmp xs)"
proof (induction xs)
  case Nil
  show ?case by (simp add: Array_sort_def)
next
  case (Cons x xs)
  have "Array_sort cmp (x # xs) = insert_by cmp x (Array_sort cmp xs)"
    by (simp add: Array_sort_def)
  with sorted_insert_by [of cmp "Array_sort cmp xs" x, OF tot trans Cons] show ?case
    by simp
qed

lemma compareHistory_le:
  "compareHistory a b \<le> 0 \<longleftrightarrow>
     createdAt a < createdAt b \<or> (createdAt a = createdAt b \<and> version a \<le> version b)"
  by (auto simp add: compareHistory_def)

lemma compareVersions_le:
  "compareVersions a b \<le> 0 \<longleftrightarrow>
     version a < version b \<or> (version a = version b \<and> createdAt a \<le> createdAt b)"
  by (auto simp add: compareVersions_def)

lemma isSorted_iff: "isSorted xs \<longleftrightarrow> sorted_wrt (\<lambda>a b. createdAt a \<le> createdAt b) xs"
proof (induction xs rule: isSorted.induct)
  case (1 prev item rest)
  then show ?case by (auto intro: order_trans)
qed simp_all

lemma sortHistory_sorted: "sorted_wrt (\<lambda>a b. createdAt a \<le> createdAt b) (sortHistory h)"
proof (cases "h \<noteq> [] \<and> \<not> isSorted h")
  case True
  have "sorted_wrt (\<lambda>a b. compareHistory a b \<le> 0) (Array_sort compareHistory h)"
    by (rule sorted_Array_sort) (auto simp add: compareHistory_le)
  then have "sorted_wrt (\<lambda>a b. createdAt a \<le> createdAt b) (Array_sort compareHistory h)"
    by (rule sorted_wrt_mono_rel [rotated]) (auto simp add: compareHistory_le)
  with True show ?thesis by (simp add: sortHistory_def)
next
  case False
  then show ?thesis by (auto simp add: sortHistory_def isSorted_iff)
qed

lemma sortVersions_sorted:
  "sorted_wrt (\<lambda>a b. version a < version b \<or> (version a = version b \<and> createdAt a \<le> createdAt b))
     (sortVersions vs)"
proof -
  have "sorted_wrt (\<lambda>a b. compareVersions a b \<le> 0) (Array_sort compareVersions vs)"
    by (rule sorted_Array_sort) (auto simp add: compareVersions_le)
  then show ?thesis
    by (simp add: sortVersions_def compareVersions_le)
qed

lemma mset_sortHistory: "mset (sortHistory h) = mset h"
  by (simp add: sortHistory_def mset_Array_sort)

lemma mset_sortVersions: "mset (sortVersions vs) = mset vs"
  by (simp add: sortVersions_def mset_Array_sort)

text \<open>
  Claim C2, as amended. The report list of \<open>fetchPatientAnalytics\<close> holds the fetched
  entries in order of nondecreasing \<open>createdAt\<close>. The list of the
  \<open>PatientProgressAnalytics\<close> component holds the fetched versions in order of
  nondecreasing version number, and in order of nondecreasing \<open>createdAt\<close> among versions
  of the same number.
\<close>

theorem report_versions_ordered:
  "sorted_wrt (\<lambda>a b. createdAt a \<le> createdAt b) (sortHistory h)
   \<and> mset (sortHistory h) = mset h
   \<and> sorted_wrt (\<lambda>a b. version a < version b \<or> (version a = version b \<and> createdAt a \<le> createdAt b))
        (sortVersions vs)
   \<and> mset (sortVersions vs) = mset vs"
  using sortHistory_sorted [of h] mset_sortHistory [of h] sortVersions_sorted [of vs]
    mset_sortVersions [of vs]
  by simp

text \<open>
  The claim as it was stated fails for the component: it sorts by version number first, so
  version 1 created at time 200 comes before version 2 created at time 100.
\<close>

theorem sortVersions_not_chronological_counterexample:
  "sortVersions
     [\<lparr>version = 2, createdAt = 100, id_doc = ''b'', createdBy = ''Unknown'', currentPainStatus = None\<rparr>,
      \<lparr>version = 1, createdAt = 200, id_doc = ''a'', createdBy = ''Unknown'', currentPainStatus = None\<rparr>]
   = [\<lparr>version = 1, createdAt = 200, id_doc = ''a'', createdBy = ''Unknown'', currentPainStatus = None\<rparr>,
      \<lparr>version = 2, createdAt = 100, id_doc = ''b'', createdBy = ''Unknown'', currentPainStatus = None\<rparr>]
   \<and> \<not> sorted_wrt (\<lambda>a b. createdAt a \<le> createdAt b)
        (sortVersions
          [\<lparr>version = 2, createdAt = 100, id_doc = ''b'', createdBy = ''Unknown'', currentPainStatus = None\<rparr>,
           \<lparr>version = 1, createdAt = 200, id_doc = ''a'', createdBy = ''Unknown'', currentPainStatus = None\<rparr>])"
  by (simp add: sortVersions_def Array_sort_def compareVersions_def)

text \<open>
  Claim C9. For a patient identifier that is not empty and queries that deliver the
  documents, the request body holds the last \<open>min n 5\<close> entries of the sorted history of
  length \<open>n\<close>; when \<open>n = 0\<close> the function throws and no request is issued.
\<close>

theorem fetchPatientAnalytics_last_five:
  assumes "patientId \<noteq> []" and "getVersions q1 q2 q3 = Inr docs"
    and "n = length (sortHistory docs)"
  shows "fetchPatientAnalytics_request patientId q1 q2 q3 =
           (if n = 0 then Inl NoReportVersions
            else Inr (drop (n - min n 5) (sortHistory docs)))
       \<and> length (drop (n - min n 5) (sortHistory docs)) = min n 5
       \<and> take (n - min n 5) (sortHistory docs) @ drop (n - min n 5) (sortHistory docs)
           = sortHistory docs"
proof -
  have "n - min n 5 = n - 5" "n - (n - 5) = min n 5" by simp_all
  then show ?thesis
    using assms by (simp add: fetchPatientAnalytics_request_def slice_last5_def Let_def)
qed

theorem fetchPatientAnalytics_last_five_witness:
  "''p1'' \<noteq> []
   \<and> getVersions (QueryError ''failed-precondition'') (QueryError ''failed-precondition'')
        (Docs [\<lparr>version = 6, createdAt = 60\<rparr>, \<lparr>version = 1, createdAt = 10\<rparr>,
               \<lparr>version = 2, createdAt = 20\<rparr>, \<lparr>version = 3, createdAt = 30\<rparr>,
               \<lparr>version = 4, createdAt = 40\<rparr>, \<lparr>version = 5, createdAt = 50\<rparr>])
      = Inr [\<lparr>version = 6, createdAt = 60\<rparr>, \<lparr>version = 1, createdAt = 10\<rparr>,
               \<lparr>version = 2, createdAt = 20\<rparr>, \<lparr>version = 3, createdAt = 30\<rparr>,
               \<lparr>version = 4, createdAt = 40\<rparr>, \<lparr>version = 5, createdAt = 50\<rparr>]
   \<and> fetchPatientAnalytics_request ''p1''
        (QueryError ''failed-precondition'') (QueryError ''failed-precondition'')
        (Docs [\<lparr>version = 6, createdAt = 60\<rparr>, \<lparr>version = 1, createdAt = 10\<rparr>,
               \<lparr>version = 2, createdAt = 20\<rparr>, \<lparr>version = 3, createdAt = 30\<rparr>,
               \<lparr>version = 4, createdAt = 40\<rparr>, \<lparr>version = 5, createdAt = 50\<rparr>])
      = Inr [\<lparr>version = 2, createdAt = 20\<rparr>, \<lparr>version = 3, createdAt = 30\<rparr>,
             \<lparr>version = 4, createdAt = 40\<rparr>, \<lparr>version = 5, createdAt = 50\<rparr>,
             \<lparr>version = 6, createdAt = 60\<rparr>]"
proof -
  let ?docs = "[\<lparr>version = 6, createdAt = 60\<rparr>, \<lparr>version = 1, createdAt = 10\<rparr>,
               \<lparr>version = 2, createdAt = 20\<rparr>, \<lparr>version = 3, createdAt = 30\<rparr>,
               \<lparr>version = 4, createdAt = 40\<rparr>, \<lparr>version = 5, createdAt = (50::int)\<rparr>]"
  have a: "''p1'' \<noteq> []" by simp
  have b: "getVersions (QueryError ''failed-precondition'') (QueryError ''failed-precondition'')
        (Docs ?docs) = Inr ?docs"
    by (simp add: getVersions_def)
  have s: "sortHistory ?docs =
      [\<lparr>version = 1, createdAt = 10\<rparr>, \<lparr>version = 2, createdAt = 20\<rparr>,
       \<lparr>version = 3, createdAt = 30\<rparr>, \<lparr>version = 4, createdAt = 40\<rparr>,
       \<lparr>version = 5, createdAt = 50\<rparr>, \<lparr>version = 6, createdAt = 60\<rparr>]"
    by (simp add: sortHistory_def Array_sort_def compareHistory_def)
  have n: "6 = length (sortHistory ?docs)" by (simp add: s)
  from fetchPatientAnalytics_last_five [OF a b n] a b show ?thesis
    by (simp add: s)
qed

text \<open>
  Claim C10. For every list of report versions and every session index \<open>i\<close> the
  \<open>cumulativeImprovementRate\<close> of session \<open>i\<close> lies between 0 and 100: it is the number
  of sessions with pain status \<open>Improved\<close> among the first \<open>i + 1\<close>, divided by \<open>i + 1\<close>,
  times 100, rounded to the nearest integer; the divisor is not zero and the count does not
  exceed it.
\<close>

theorem cumulativeImprovementRate_percentage:
  assumes "mono rnd" and "rnd 0 = 0" and "rnd 1 = 1" and "rnd 100 = 100"
    and "i < length reportVersions"
    and "k = length (filter (\<lambda>v. currentPainStatus v = Some ''Improved'')
                 (take (i + 1) reportVersions))"
  shows "length (sessionMetrics rnd reportVersions) = length reportVersions
       \<and> cumulativeImprovementRate (sessionMetrics rnd reportVersions ! i) =
           Math_round (rnd (rnd (of_nat k / of_nat (i + 1)) * 100))
       \<and> 0 \<le> cumulativeImprovementRate (sessionMetrics rnd reportVersions ! i)
       \<and> cumulativeImprovementRate (sessionMetrics rnd reportVersions ! i) \<le> 100
       \<and> k \<le> i + 1 \<and> i + 1 \<noteq> 0"
proof -
  let ?q = "(of_nat k :: rat) / of_nat (i + 1)"
  have "k \<le> length (take (i + 1) reportVersions)"
    unfolding assms(6) by (rule length_filter_le)
  then have k: "k \<le> i + 1" by simp
  have q: "0 \<le> ?q" "?q \<le> 1"
    using k by (simp_all add: divide_le_eq_1)
  have r1: "0 \<le> rnd ?q" "rnd ?q \<le> 1"
    using monoD [OF assms(1) q(1)] monoD [OF assms(1) q(2)] assms(2,3) by simp_all
  then have "0 \<le> rnd ?q * 100" "rnd ?q * 100 \<le> 100" by simp_all
  then have r2: "0 \<le> rnd (rnd ?q * 100)" "rnd (rnd ?q * 100) \<le> 100"
    using monoD [OF assms(1), of 0 "rnd ?q * 100"] monoD [OF assms(1), of "rnd ?q * 100" 100]
      assms(2,4) by simp_all
  have lo: "0 \<le> Math_round (rnd (rnd ?q * 100))"
    unfolding Math_round_def using r2(1) by (simp add: le_floor_iff)
  have "rnd (rnd ?q * 100) + 1 / 2 < 101" using r2(2) by simp
  then have hi: "Math_round (rnd (rnd ?q * 100)) \<le> 100"
    unfolding Math_round_def by (simp add: floor_less_iff)
  have len: "length (sessionMetrics rnd reportVersions) = length reportVersions"
    by (simp add: sessionMetrics_def)
  have nth: "sessionMetrics rnd reportVersions ! i =
      sessionMetric rnd reportVersions (reportVersions ! i) i"
    using assms(5) by (auto simp add: sessionMetrics_def)
  have rate: "cumulativeImprovementRate (sessionMetrics rnd reportVersions ! i) =
      Math_round (rnd (rnd ?q * 100))"
    by (simp add: nth sessionMetric_def Let_def assms(6))
  show ?thesis
    using len rate lo hi k by simp
qed

theorem cumulativeImprovementRate_percentage_witness:
  "mono (\<lambda>x::rat. x) \<and> (0::rat) = 0 \<and> (1::rat) = 1 \<and> (100::rat) = 100
   \<and> 2 < length
        [\<lparr>version = 1, createdAt = 10, id_doc = ''a'', createdBy = ''x'', currentPainStatus = Some ''Improved''\<rparr>,
         \<lparr>version = 2, createdAt = 20, id_doc = ''b'', createdBy = ''x'', currentPainStatus = Some ''Same''\<rparr>,
         \<lparr>version = 3, createdAt = 30, id_doc = ''c'', createdBy = ''x'', currentPainStatus = Some ''Improved''\<rparr>]
   \<and> cumulativeImprovementRate (sessionMetrics (\<lambda>x. x)
        [\<lparr>version = 1, createdAt = 10, id_doc = ''a'', createdBy = ''x'', currentPainStatus = Some ''Improved''\<rparr>,
         \<lparr>version = 2, createdAt = 20, id_doc = ''b'', createdBy = ''x'', currentPainStatus = Some ''Same''\<rparr>,
         \<lparr>version = 3, createdAt = 30, id_doc = ''c'', createdBy = ''x'', currentPainStatus = Some ''Improved''\<rparr>]
        ! 2) = 67"
proof -
  let ?vs = "[\<lparr>version = 1, createdAt = 10, id_doc = ''a'', createdBy = ''x'', currentPainStatus = Some ''Improved''\<rparr>,
         \<lparr>version = 2, createdAt = 20, id_doc = ''b'', createdBy = ''x'', currentPainStatus = Some ''Same''\<rparr>,
         \<lparr>version = 3, createdAt = 30, id_doc = ''c'', createdBy = ''x'', currentPainStatus = Some ''Improved''\<rparr>]"
  have m: "mono (\<lambda>x::rat. x)" by (simp add: mono_def)
  have i: "2 < length ?vs" by simp
  have k: "2 = length (filter (\<lambda>v. currentPainStatus v = Some ''Improved'') (take (2 + 1) ?vs))"
    by simp
  have "\<lfloor>(403::rat) / 6\<rfloor> = 67"
    by (rule floor_unique) simp_all
  then have "Math_round (of_nat 2 / of_nat (2 + 1) * 100) = 67"
    by (simp add: Math_round_def)
  with cumulativeImprovementRate_percentage [of "\<lambda>x. x" 2 ?vs 2, OF m refl refl refl i k] m i
  show ?thesis by simp
qed

section \<open>Properties of the route handlers\<close>

lemma getProp_not_null:
  assumes "b \<noteq> JNull"
  shows "getProp b k = Inr (optChain b k)"
  using assms by (cases b) (simp_all add: getProp_def optChain_def)

lemma analyze_catch_cases:
  "analyze_catch e tr =
     (if err_status e = Some 401 then (failure 401 ''Invalid OpenAI API key'', tr @ [Console_error])
      else if rateLimited e then (success fallbackAnalysis, tr @ [Console_error])
      else (failure 500
              (case err_message e of
                 None \<Rightarrow> ''Failed to analyze patient data''
               | Some m \<Rightarrow> if m = [] then ''Failed to analyze patient data'' else m),
            tr @ [Console_error]))"
  by (simp add: analyze_catch_def)

lemma analyze_catch_no_call: "OpenAI_create \<in> set (snd (analyze_catch e tr)) \<longleftrightarrow> OpenAI_create \<in> set tr"
  by (simp add: analyze_catch_def)

text \<open>The chat-completion call is made exactly when the request passes the three checks.\<close>

lemma analyze_call_made:
  "OpenAI_create \<in> set (snd (POST_analyze_patient rq)) \<longleftrightarrow>
     (\<exists>b x xs. reqBody rq = Inr b \<and> getProp b ''reportHistory'' = Inr (Some (JArr (x # xs)))
        \<and> apiKey rq)"
proof (cases "reqBody rq")
  case (Inl e)
  then show ?thesis by (simp add: POST_analyze_patient_def analyze_catch_no_call)
next
  case (Inr b)
  show ?thesis
  proof (cases "getProp b ''reportHistory''")
    case (Inl e)
    with Inr show ?thesis by (simp add: POST_analyze_patient_def analyze_catch_no_call)
  next
    case r: (Inr rh)
    show ?thesis
    proof (cases "\<exists>x xs. rh = Some (JArr (x # xs))")
      case True
      then obtain x xs where rh: "rh = Some (JArr (x # xs))" by blast
      show ?thesis
        using Inr r rh
        by (auto simp add: POST_analyze_patient_def falsy_def analyze_catch_no_call
            analyze_result_def split: completionOutcome.splits responseContent.splits sum.splits)
    next
      case False
      then have "falsy rh \<or> \<not> isArray rh \<or> rh = Some (JArr [])"
        by (cases rh rule: isArray.cases) (auto simp add: neq_Nil_conv)
      with Inr r False show ?thesis
        by (auto simp add: POST_analyze_patient_def)
    qed
  qed
qed


lemma analyze_patient_bad_history:
  assumes "reqBody rq = Inr b" and "b \<noteq> JNull"
    and "optChain b ''reportHistory'' = None \<or> \<not> isArray (optChain b ''reportHistory'')
         \<or> optChain b ''reportHistory'' = Some (JArr [])"
  shows "POST_analyze_patient rq =
     (\<lparr>status = 400,
       payload = JObj [(''success'', JBool False),
         (''message'', JStr (if optChain b ''reportHistory'' = Some (JArr [])
            then ''Report history is empty. At least one report is required for analysis.''
            else ''Missing or invalid field: reportHistory (must be an array)''))]\<rparr>, [])"
proof -
  have g: "getProp b ''reportHistory'' = Inr (optChain b ''reportHistory'')"
    using assms(2) by (rule getProp_not_null)
  show ?thesis
  proof (cases "optChain b ''reportHistory'' = Some (JArr [])")
    case True
    then show ?thesis
      by (simp add: POST_analyze_patient_def assms(1) g falsy_def failure_def)
  next
    case False
    with assms(3) have "falsy (optChain b ''reportHistory'') \<or> \<not> isArray (optChain b ''reportHistory'')"
      by (auto simp add: falsy_def)
    with False show ?thesis
      by (auto simp add: POST_analyze_patient_def assms(1) g failure_def)
  qed
qed

text \<open>
  Claim C3. When the chat-completion call is made and fails with a rate-limit error (status
  429 or code \<open>rate_limit_exceeded\<close>), the handler answers with status 200,
  \<open>success: true\<close> and the fixed analysis object, whose fields are \<open>summary\<close>,
  \<open>trend_analysis\<close>, \<open>key_achievements\<close> (an array of one string) and \<open>recommendation\<close>.
  Any other failure of the call is answered with \<open>success: false\<close> and status 401 or 500.
\<close>

theorem rate_limit_fallback:
  assumes "OpenAI_create \<in> set (snd (POST_analyze_patient rq))"
    and "completion rq = Threw e"
  shows "(rateLimited e \<longrightarrow>
            POST_analyze_patient rq =
              (\<lparr>status = 200,
                payload = JObj [(''success'', JBool True), (''data'', fallbackAnalysis)]\<rparr>,
               [OpenAI_create, Console_warn]))
       \<and> (\<not> rateLimited e \<longrightarrow>
            (\<exists>msg. POST_analyze_patient rq =
               (\<lparr>status = (if err_status e = Some 401 then 401 else 500),
                 payload = JObj [(''success'', JBool False), (''message'', JStr msg)]\<rparr>,
                [OpenAI_create, Console_error])))
       \<and> (\<exists>s t a r. fallbackAnalysis =
             JObj [(''summary'', JStr s), (''trend_analysis'', JStr t),
                   (''key_achievements'', JArr [JStr a]), (''recommendation'', JStr r)])"
proof -
  from assms(1) obtain b x xs where b: "reqBody rq = Inr b"
    "getProp b ''reportHistory'' = Inr (Some (JArr (x # xs)))" "apiKey rq"
    unfolding analyze_call_made by blast
  have r: "POST_analyze_patient rq =
      (if rateLimited e then (success fallbackAnalysis, [OpenAI_create, Console_warn])
       else analyze_catch e [OpenAI_create])"
    by (simp add: POST_analyze_patient_def b assms(2) falsy_def)
  have one: "rateLimited e \<longrightarrow>
            POST_analyze_patient rq =
              (\<lparr>status = 200,
                payload = JObj [(''success'', JBool True), (''data'', fallbackAnalysis)]\<rparr>,
               [OpenAI_create, Console_warn])"
    by (simp add: r success_def)
  have two: "\<not> rateLimited e \<longrightarrow>
            (\<exists>msg. POST_analyze_patient rq =
               (\<lparr>status = (if err_status e = Some 401 then 401 else 500),
                 payload = JObj [(''success'', JBool False), (''message'', JStr msg)]\<rparr>,
                [OpenAI_create, Console_error]))"
    by (simp add: r analyze_catch_cases failure_def)
  have three: "\<exists>s t a r. fallbackAnalysis =
             JObj [(''summary'', JStr s), (''trend_analysis'', JStr t),
                   (''key_achievements'', JArr [JStr a]), (''recommendation'', JStr r)]"
    by (simp add: fallbackAnalysis_def)
  from one two three show ?thesis by blast
qed

theorem rate_limit_fallback_witness:
  "OpenAI_create \<in> set (snd (POST_analyze_patient
      \<lparr>reqBody = Inr (JObj [(''reportHistory'', JArr [JObj [(''version'', JNum 1)]])]),
       apiKey = True,
       completion = Threw \<lparr>err_status = Some 429, err_code = None, err_message = None\<rparr>\<rparr>))
   \<and> rateLimited \<lparr>err_status = Some 429, err_code = None, err_message = None\<rparr>
   \<and> POST_analyze_patient
      \<lparr>reqBody = Inr (JObj [(''reportHistory'', JArr [JObj [(''version'', JNum 1)]])]),
       apiKey = True,
       completion = Threw \<lparr>err_status = Some 429, err_code = None, err_message = None\<rparr>\<rparr>
     = (\<lparr>status = 200,
         payload = JObj [(''success'', JBool True), (''data'', fallbackAnalysis)]\<rparr>,
        [OpenAI_create, Console_warn])"
proof -
  let ?e = "\<lparr>err_status = Some 429, err_code = None, err_message = None\<rparr>"
  let ?rq = "\<lparr>reqBody = Inr (JObj [(''reportHistory'', JArr [JObj [(''version'', JNum 1)]])]),
       apiKey = True, completion = Threw ?e\<rparr>"
  have a: "OpenAI_create \<in> set (snd (POST_analyze_patient ?rq))"
    by (simp add: analyze_call_made getProp_def member_def)
  have c: "completion ?rq = Threw ?e" by simp
  have l: "rateLimited ?e" by (simp add: rateLimited_def)
  from rate_limit_fallback [OF a c] a l show ?thesis by blast
qed

text \<open>
  Claim C7. The claim says that a request whose \<open>reportHistory\<close> is missing is answered with
  status 400. A request whose body is the JSON value \<open>null\<close> has no \<open>reportHistory\<close>, but
  destructuring it throws, and the handler answers with status 500 and the message of the
  type error, after writing to the error log. (For every other JSON body the answer is 400,
  without any effect: lemma \<open>analyze_patient_bad_history\<close>.)
\<close>

theorem analyze_patient_null_body:
  "optChain JNull ''reportHistory'' = None
   \<and> POST_analyze_patient \<lparr>reqBody = Inr JNull, apiKey = True, completion = Completed NoContent\<rparr>
     = (\<lparr>status = 500,
         payload = JObj [(''success'', JBool False),
                         (''message'', JStr ''Cannot read properties of null'')]\<rparr>,
        [Console_error])"
  by (simp add: POST_analyze_patient_def getProp_def optChain_def TypeError_def
      analyze_catch_def rateLimited_def failure_def)








section \<open>Properties of the CSV exports\<close>

lemma chars_distinct:
  "dquote \<noteq> CHR '',''" "dquote \<noteq> newline" "newline \<noteq> CHR '',''"
  "CHR '','' \<noteq> dquote" "newline \<noteq> dquote" "CHR '','' \<noteq> newline"
  "creturn \<noteq> CHR '',''" "creturn \<noteq> newline" "creturn \<noteq> dquote"
  "CHR '','' \<noteq> creturn" "newline \<noteq> creturn" "dquote \<noteq> creturn"
  by (simp_all add: dquote_def newline_def creturn_def)

lemma csv_step_quote:
  "csv_step (rows, cells, cell, FieldStart) dquote = (rows, cells, cell, Quoted)"
  "csv_step (rows, cells, cell, Quoted) dquote = (rows, cells, cell, QuoteInQuoted)"
  "csv_step (rows, cells, cell, QuoteInQuoted) dquote = (rows, cells, cell @ [dquote], Quoted)"
  by (simp_all add: csv_step_def chars_distinct)

lemma csv_step_in_quotes:
  "c \<noteq> dquote \<Longrightarrow> csv_step (rows, cells, cell, Quoted) c = (rows, cells, cell @ [c], Quoted)"
  by (simp add: csv_step_def)

lemma csv_step_comma:
  "pl \<noteq> Quoted \<Longrightarrow> csv_step (rows, cells, cell, pl) (CHR '','') = (rows, cells @ [cell], [], FieldStart)"
  by (simp add: csv_step_def chars_distinct)

lemma csv_step_newline:
  "pl \<noteq> Quoted \<Longrightarrow> pl \<noteq> AfterReturn \<Longrightarrow>
   csv_step (rows, cells, cell, pl) newline = (rows @ [cells @ [cell]], [], [], FieldStart)"
  by (simp add: csv_step_def chars_distinct)

lemma csv_step_return:
  "pl \<noteq> Quoted \<Longrightarrow>
   csv_step (rows, cells, cell, pl) creturn = (rows @ [cells @ [cell]], [], [], AfterReturn)"
  by (simp add: csv_step_def chars_distinct)

lemma read_plain:
  assumes "\<forall>c\<in>set s. \<not> special c \<and> c \<noteq> creturn" and "pl \<noteq> Quoted" and "pl \<noteq> AfterReturn"
  shows "\<exists>pl'. foldl csv_step (rows, cells, cell, pl) s = (rows, cells, cell @ s, pl')
           \<and> pl' \<noteq> Quoted \<and> pl' \<noteq> AfterReturn"
  using assms
proof (induction s arbitrary: cell pl)
  case Nil
  then show ?case by simp
next
  case (Cons c s)
  from Cons.prems have c: "c \<noteq> CHR '',''" "c \<noteq> dquote" "c \<noteq> newline" "c \<noteq> creturn"
    by (auto simp add: special_def)
  with Cons.prems(2) have step: "csv_step (rows, cells, cell, pl) c = (rows, cells, cell @ [c], Unquoted)"
    by (simp add: csv_step_def)
  from Cons.prems(1) have "\<forall>c\<in>set s. \<not> special c \<and> c \<noteq> creturn" by simp
  from Cons.IH [OF this, of Unquoted "cell @ [c]"] show ?case
    by (simp add: step)
qed

lemma replaceQuotes_Cons:
  "replaceQuotes (c # s) = (if c = dquote then [dquote, dquote] else [c]) @ replaceQuotes s"
  by (simp add: replaceQuotes_def)

lemma map_butlast_last:
  assumes "xs \<noteq> []"
  shows "map f (butlast xs) @ [f (last xs)] = map f xs"
proof -
  have "butlast xs @ [last xs] = xs"
    using assms by (rule append_butlast_last_id)
  then have "map f (butlast xs @ [last xs]) = map f xs"
    by (rule arg_cong)
  then show ?thesis by simp
qed

lemma read_quoted:
  "foldl csv_step (rows, cells, cell, Quoted) (replaceQuotes s) = (rows, cells, cell @ s, Quoted)"
proof (induction s arbitrary: cell)
  case Nil
  show ?case by (simp add: replaceQuotes_def)
next
  case (Cons c s)
  show ?case
  proof (cases "c = dquote")
    case True
    then show ?thesis
      using Cons.IH [of "cell @ [c]"] by (simp add: replaceQuotes_Cons csv_step_quote)
  next
    case False
    then show ?thesis
      using Cons.IH [of "cell @ [c]"] by (simp add: replaceQuotes_Cons csv_step_in_quotes)
  qed
qed

lemma read_cell:
  assumes "\<not> bareReturn (orEmpty c)"
  shows "\<exists>pl'. foldl csv_step (rows, cells, [], FieldStart) (escapeCell c)
           = (rows, cells, orEmpty c, pl')
     \<and> pl' \<noteq> Quoted \<and> pl' \<noteq> AfterReturn"
proof (cases "\<exists>x\<in>set (orEmpty c). special x")
  case True
  then have e: "escapeCell c = [dquote] @ replaceQuotes (orEmpty c) @ [dquote]"
    by (auto simp add: escapeCell_def special_def Let_def)
  have "foldl csv_step (rows, cells, [], FieldStart) (escapeCell c) =
      (rows, cells, orEmpty c, QuoteInQuoted)"
    by (simp add: e read_quoted csv_step_quote)
  then show ?thesis by simp
next
  case False
  then have e: "escapeCell c = orEmpty c"
    by (auto simp add: escapeCell_def special_def Let_def)
  from False assms have "\<forall>x\<in>set (orEmpty c). \<not> special x \<and> x \<noteq> creturn"
    by (auto simp add: bareReturn_def special_def)
  from read_plain [OF this, of FieldStart rows cells "[]"] show ?thesis
    by (simp add: e)
qed

lemma read_row:
  assumes "\<forall>x\<in>set (c # cs). \<not> bareReturn (orEmpty x)"
  shows "\<exists>pl'. foldl csv_step (rows, cells, [], FieldStart) (join '','' (map escapeCell (c # cs)))
       = (rows, cells @ map orEmpty (butlast (c # cs)), orEmpty (last (c # cs)), pl')
     \<and> pl' \<noteq> Quoted \<and> pl' \<noteq> AfterReturn"
  using assms
proof (induction cs arbitrary: c cells)
  case Nil
  then have "\<not> bareReturn (orEmpty c)" by simp
  from read_cell [OF this, of rows cells] show ?case by simp
next
  case (Cons d cs)
  from Cons.prems have "\<not> bareReturn (orEmpty c)" by simp
  from read_cell [OF this, of rows cells] obtain pl where
    pl: "foldl csv_step (rows, cells, [], FieldStart) (escapeCell c) = (rows, cells, orEmpty c, pl)"
    "pl \<noteq> Quoted" by blast
  from Cons.prems have "\<forall>x\<in>set (d # cs). \<not> bareReturn (orEmpty x)" by simp
  from Cons.IH [OF this, of "cells @ [orEmpty c]"] show ?case
    by (simp add: pl csv_step_comma)
qed

lemma read_rows:
  assumes "\<forall>r\<in>set (r # rs). r \<noteq> [] \<and> (\<forall>x\<in>set r. \<not> bareReturn (orEmpty x))"
  shows "\<exists>pl'. foldl csv_step (rows, [], [], FieldStart)
           (join [newline] (map (\<lambda>row. join '','' (map escapeCell row)) (r # rs)))
       = (rows @ map (map orEmpty) (butlast (r # rs)),
          map orEmpty (butlast (last (r # rs))), orEmpty (last (last (r # rs))), pl')
     \<and> pl' \<noteq> Quoted \<and> pl' \<noteq> AfterReturn"
  using assms
proof (induction rs arbitrary: r rows)
  case Nil
  then obtain c cs where r: "r = c # cs" by (cases r) auto
  from Nil have "\<forall>x\<in>set (c # cs). \<not> bareReturn (orEmpty x)" by (simp add: r)
  from read_row [OF this, of rows "[]"] show ?case by (simp add: r)
next
  case (Cons q rs)
  from Cons.prems obtain c cs where r: "r = c # cs" by (cases r) auto
  from Cons.prems have "\<forall>x\<in>set (c # cs). \<not> bareReturn (orEmpty x)" by (simp add: r)
  from read_row [OF this, of rows "[]"] obtain pl where
    pl: "foldl csv_step (rows, [], [], FieldStart) (join '','' (map escapeCell r))
       = (rows, map orEmpty (butlast r), orEmpty (last r), pl)" "pl \<noteq> Quoted" "pl \<noteq> AfterReturn"
    unfolding r by auto
  have last: "map orEmpty (butlast r) @ [orEmpty (last r)] = map orEmpty r"
    by (rule map_butlast_last) (simp add: r)
  from Cons.prems
  have "\<forall>r\<in>set (q # rs). r \<noteq> [] \<and> (\<forall>x\<in>set r. \<not> bareReturn (orEmpty x))" by simp
  from Cons.IH [OF this, of "rows @ [map orEmpty r]"] show ?case
    by (simp add: pl csv_step_newline last)
qed

lemma parse_csv_rows:
  assumes "rs \<noteq> []" and "\<forall>r\<in>set rs. r \<noteq> [] \<and> (\<forall>x\<in>set r. \<not> bareReturn (orEmpty x))"
  shows "parse_csv (join [newline] (map (\<lambda>row. join '','' (map escapeCell row)) rs))
         = map (map orEmpty) rs"
proof -
  from assms(1) obtain r rs' where rs: "rs = r # rs'" by (cases rs) auto
  from read_rows [of r rs' "[]"] assms(2) obtain pl where
    "foldl csv_step ([], [], [], FieldStart)
           (join [newline] (map (\<lambda>row. join '','' (map escapeCell row)) rs))
       = (map (map orEmpty) (butlast rs),
          map orEmpty (butlast (last rs)), orEmpty (last (last rs)), pl)"
    unfolding rs by auto
  moreover have "last rs \<noteq> []" using assms by simp
  then have "map orEmpty (butlast (last rs)) @ [orEmpty (last (last rs))] = map orEmpty (last rs)"
    by (rule map_butlast_last)
  moreover have "map (map orEmpty) (butlast rs) @ [map orEmpty (last rs)] = map (map orEmpty) rs"
    using assms(1) by (rule map_butlast_last)
  ultimately show ?thesis
    by (simp add: parse_csv_def)
qed

lemma headers_plain:
  "join '','' exportHeaders = join '','' (map escapeCell (map Some exportHeaders))"
  "join '','' detailsHeaders = join '','' (map escapeCell (map Some detailsHeaders))"
  by (simp_all add: exportHeaders_def detailsHeaders_def escapeCell_def orEmpty_def
      dquote_def newline_def)

lemma headers_no_return:
  "\<forall>x\<in>set (map Some exportHeaders). \<not> bareReturn (orEmpty x)"
  "\<forall>x\<in>set (map Some detailsHeaders). \<not> bareReturn (orEmpty x)"
  by (simp_all add: exportHeaders_def detailsHeaders_def bareReturn_def orEmpty_def creturn_def)

lemma parse_csvContent:
  assumes "join '','' headers = join '','' (map escapeCell (map Some headers))"
    and "headers \<noteq> []" and "\<forall>x\<in>set (map Some headers). \<not> bareReturn (orEmpty x)"
    and "\<forall>r\<in>set rows. r \<noteq> [] \<and> (\<forall>x\<in>set r. \<not> bareReturn (orEmpty x))"
  shows "parse_csv (csvContent headers rows) = headers # map (map orEmpty) rows"
proof -
  let ?rs = "map Some headers # rows"
  have "csvContent headers rows =
      join [newline] (map (\<lambda>row. join '','' (map escapeCell row)) ?rs)"
    by (simp add: csvContent_def assms(1))
  moreover have ne: "?rs \<noteq> []" "\<forall>r\<in>set ?rs. r \<noteq> [] \<and> (\<forall>x\<in>set r. \<not> bareReturn (orEmpty x))"
    using assms(2,3,4) by simp_all
  ultimately have "parse_csv (csvContent headers rows) = map (map orEmpty) ?rs"
    using parse_csv_rows [OF ne] by simp
  then show ?thesis by (simp add: orEmpty_def comp_def)
qed

text \<open>
  When no cell value has a carriage return without a comma, double quote or line feed,
  reading either export gives back the header row and the cell values of every employee.
\<close>

lemma csv_export_read_back:
  assumes "\<forall>e\<in>set es. \<forall>x\<in>set (exportRow f e). \<not> bareReturn (orEmpty x)"
  shows "parse_csv (handleExportCSV f es) = exportHeaders # map (\<lambda>e. map orEmpty (exportRow f e)) es"
proof -
  have "parse_csv (handleExportCSV f es) = exportHeaders # map (map orEmpty) (map (exportRow f) es)"
    unfolding handleExportCSV_def
    using assms
    by (intro parse_csvContent [OF headers_plain(1) _ headers_no_return(1)])
       (auto simp add: exportHeaders_def exportRow_def)
  then show ?thesis by (simp add: comp_def)
qed

lemma csv_details_read_back:
  assumes "\<forall>e\<in>set es. \<forall>x\<in>set (detailsRow f e). \<not> bareReturn (orEmpty x)"
  shows "parse_csv (handleExportEmployeeDetailsCSV f es) =
           detailsHeaders # map (\<lambda>e. map orEmpty (detailsRow f e)) es"
proof -
  have ne: "detailsRow f e \<noteq> []" for e by (simp add: detailsRow_def)
  have "parse_csv (handleExportEmployeeDetailsCSV f es) =
      detailsHeaders # map (map orEmpty) (map (detailsRow f) es)"
    unfolding handleExportEmployeeDetailsCSV_def
    using assms ne
    by (intro parse_csvContent [OF headers_plain(2) _ headers_no_return(2)])
       (auto simp add: detailsHeaders_def)
  then show ?thesis by (simp add: comp_def)
qed


lemma csv_step_rows:
  "fst (csv_step (rows, cells, cell, pl) c) = rows
   \<or> fst (csv_step (rows, cells, cell, pl) c) = rows @ [cells @ [cell]]"
  by (simp add: csv_step_def)

lemma rows_grow:
  "\<exists>more cells' cell' pl'.
     foldl csv_step (rows, cells, cell, pl) s = (rows @ more, cells', cell', pl')"
proof (induction s arbitrary: rows cells cell pl)
  case Nil
  show ?case by simp
next
  case (Cons c s)
  obtain rows1 cells1 cell1 pl1 where
    step: "csv_step (rows, cells, cell, pl) c = (rows1, cells1, cell1, pl1)"
    by (cases "csv_step (rows, cells, cell, pl) c") auto
  with csv_step_rows [of rows cells cell pl c] obtain more1 where
    rows1: "rows1 = rows @ more1"
    by auto
  from Cons.IH [of "rows @ more1" cells1 cell1 pl1] show ?case
    by (auto simp add: step rows1)
qed

lemma read_headers:
  "foldl csv_step ([], [], [], FieldStart) (join '','' exportHeaders @ [newline]) =
      ([exportHeaders], [], [], FieldStart)"
proof -
  have "\<forall>x\<in>set (Some ''Name'' # map Some (tl exportHeaders)). \<not> bareReturn (orEmpty x)"
    using headers_no_return(1) by (simp add: exportHeaders_def)
  from read_row [OF this, of "[]" "[]"] obtain pl where
    "foldl csv_step ([], [], [], FieldStart) (join '','' exportHeaders) =
       ([], butlast exportHeaders, last exportHeaders, pl)" "pl \<noteq> Quoted" "pl \<noteq> AfterReturn"
    unfolding headers_plain(1) by (auto simp add: exportHeaders_def orEmpty_def)
  then show ?thesis
    by (simp add: csv_step_newline) (simp add: exportHeaders_def)
qed

lemma escapeCell_return:
  "escapeCell (Some (''Asha'' @ [creturn] @ ''Rao'')) = ''Asha'' @ [creturn] @ ''Rao''"
  by (simp add: escapeCell_def orEmpty_def creturn_def dquote_def newline_def)

lemma export_return_text:
  "\<exists>rest. handleExportCSV f [e\<lparr>userName := ''Asha'' @ [creturn] @ ''Rao''\<rparr>] =
     (join '','' exportHeaders @ [newline]) @ ''Asha'' @ [creturn] @ rest"
  unfolding handleExportCSV_def csvContent_def exportRow_def
  by (simp add: escapeCell_return [simplified])

lemma read_return_rows:
  "\<exists>more cells cell pl.
     foldl csv_step ([], [], [], FieldStart)
       (handleExportCSV f [e\<lparr>userName := ''Asha'' @ [creturn] @ ''Rao''\<rparr>]) =
     ([exportHeaders, [''Asha'']] @ more, cells, cell, pl)"
proof -
  obtain rest where
    shape: "handleExportCSV f [e\<lparr>userName := ''Asha'' @ [creturn] @ ''Rao''\<rparr>] =
      (join '','' exportHeaders @ [newline]) @ ''Asha'' @ [creturn] @ rest"
    using export_return_text by blast
  have "\<forall>c\<in>set ''Asha''. \<not> special c \<and> c \<noteq> creturn"
    by (simp add: special_def creturn_def dquote_def newline_def)
  from read_plain [OF this, of FieldStart "[exportHeaders]" "[]" "[]"] obtain pl where
    name: "foldl csv_step ([exportHeaders], [], [], FieldStart) ''Asha'' =
       ([exportHeaders], [], ''Asha'', pl)" "pl \<noteq> Quoted"
    by auto
  have "foldl csv_step ([], [], [], FieldStart) ((join '','' exportHeaders @ [newline]) @ ''Asha'' @ [creturn]) =
      ([exportHeaders, [''Asha'']], [], [], AfterReturn)"
    using read_headers name(2)
    by (simp only: foldl_append name(1)) (simp add: csv_step_return)
  then have "foldl csv_step ([], [], [], FieldStart)
       (handleExportCSV f [e\<lparr>userName := ''Asha'' @ [creturn] @ ''Rao''\<rparr>]) =
       foldl csv_step ([exportHeaders, [''Asha'']], [], [], AfterReturn) rest"
    unfolding shape by (simp only: foldl_append append_assoc [symmetric])
  with rows_grow [of "[exportHeaders, [''Asha'']]" "[]" "[]" AfterReturn rest] show ?thesis
    by auto
qed

text \<open>
  Claim C4. In the employee CSV exports a cell value without comma, double quote and
  newline is written verbatim, any other cell value is written between double quotes with
  each of its double quotes doubled, cells are joined by commas and rows by newlines, so
  that for every list of employees the export can be read back to the original cell values
  under the standard CSV rules.

  The code does not meet this. The export tests a cell for a comma, a double quote and a
  line feed only, so a name with a carriage return and none of these is written verbatim,
  without quotes; a standard reader ends the row at the carriage return. For every
  employee whose name is \<open>Asha\<close>, a carriage return and \<open>Rao\<close>, and every date format, the export of that one
  employee reads back as three rows or more, the second of which is the single cell
  \<open>Asha\<close>, while the employee's row starts with the cell of the whole name. For cell values
  that have no such carriage return the export does read back
  (\<open>csv_export_read_back\<close>, \<open>csv_details_read_back\<close>).
\<close>

theorem csv_export_bare_carriage_return:
  "escapeCell (Some (''Asha'' @ [creturn] @ ''Rao'')) = ''Asha'' @ [creturn] @ ''Rao''
   \<and> hd (exportRow f (e\<lparr>userName := ''Asha'' @ [creturn] @ ''Rao''\<rparr>)) =
       Some (''Asha'' @ [creturn] @ ''Rao'')
   \<and> take 2 (parse_csv (handleExportCSV f [e\<lparr>userName := ''Asha'' @ [creturn] @ ''Rao''\<rparr>])) =
       [exportHeaders, [''Asha'']]
   \<and> 3 \<le> length (parse_csv (handleExportCSV f [e\<lparr>userName := ''Asha'' @ [creturn] @ ''Rao''\<rparr>]))"
proof -
  obtain more cells cell pl where
    "foldl csv_step ([], [], [], FieldStart)
       (handleExportCSV f [e\<lparr>userName := ''Asha'' @ [creturn] @ ''Rao''\<rparr>]) =
     ([exportHeaders, [''Asha'']] @ more, cells, cell, pl)"
    using read_return_rows by blast
  then have "parse_csv (handleExportCSV f [e\<lparr>userName := ''Asha'' @ [creturn] @ ''Rao''\<rparr>]) =
      [exportHeaders, [''Asha'']] @ more @ [cells @ [cell]]"
    by (simp add: parse_csv_def)
  then have "take 2 (parse_csv (handleExportCSV f [e\<lparr>userName := ''Asha'' @ [creturn] @ ''Rao''\<rparr>])) =
       [exportHeaders, [''Asha'']]"
    and "3 \<le> length (parse_csv (handleExportCSV f [e\<lparr>userName := ''Asha'' @ [creturn] @ ''Rao''\<rparr>]))"
    by simp_all
  moreover have "hd (exportRow f (e\<lparr>userName := ''Asha'' @ [creturn] @ ''Rao''\<rparr>)) =
       Some (''Asha'' @ [creturn] @ ''Rao'')"
    by (simp add: exportRow_def)
  ultimately show ?thesis
    using escapeCell_return by blast
qed


end
